theory Spec2Isabelle
  imports Main "HOL-Library.Word"
begin

section \<open>Nested transactions of package gdb (database/gdb/gdb\_core\_transaction.go)\<close>

text \<open>
  The embedding follows the Go source function by function. Go's pointers to \<open>TX\<close>
  objects are addresses into a store of handles, because a context carries the pointer and
  \<open>TXFromCtx\<close> writes through it. Every call that reaches the database driver is
  appended to a log, and the driver's answer to the call at position \<open>k\<close> of that log
  is read from the environment. A \<open>Commit\<close> or \<open>Rollback\<close> that \<open>database/sql\<close>
  refuses, because the raw transaction is finished, is marked in the log as refused: it
  does not reach the driver. Tracing and logging of the \<open>Sql\<close> records
  (\<open>addSqlToTracing\<close>, \<open>writeSqlToLogger\<close>) have no effect on what the functions
  return or on the handles, and are left out.
\<close>

subsection \<open>Errors, panics and contexts\<close>

text \<open>A Go \<open>error\<close> is a message; the nil error is \<open>None\<close> of \<open>error option\<close>.\<close>

datatype error = Error string

text \<open>
  A non-nil value given to \<open>panic\<close>, kept as the text that the verb \<open>%v\<close> prints for
  it.
\<close>

datatype panic_value = PanicValue string

text \<open>
  A call either returns a value or unwinds with a panic. The panic carries the value given
  to \<open>panic\<close>, which may be nil (\<open>None\<close>): \<open>recover()\<close> then yields nil, as it does
  when there is no panic at all.
\<close>

datatype 'a outcome = Returns 'a | Panics "panic_value option"

text \<open>
  The values a context can hold under a string key: nothing (an untyped nil), a
  \<open>*TX\<close> (an address, or the typed nil pointer), the \<open>uint64\<close> transaction id
  stored for the logger, or a value of any other type.
\<close>

datatype ctx_value =
    NilValue
  | TXPointer "nat option"
  | Uint64Value "64 word"
  | OtherValue string

text \<open>
  A non-nil \<open>context.Context\<close> is its chain of key/value pairs, innermost first; the
  empty chain is \<open>context.Background()\<close>. A context that may be nil is a
  \<open>context option\<close>.
\<close>

type_synonym "context" = "(string \<times> ctx_value) list"

definition WithValue :: "context \<Rightarrow> string \<Rightarrow> ctx_value \<Rightarrow> context" where
  "WithValue c k v = (k, v) # c"

definition Value :: "context \<Rightarrow> string \<Rightarrow> ctx_value" where
  "Value c k = (case map_of c k of None \<Rightarrow> NilValue | Some v \<Rightarrow> v)"

subsection \<open>The database object, the handle and the world\<close>

text \<open>
  The methods of the \<open>DB\<close> interface that the transaction code calls. Their bodies are
  not part of the file, so they are parameters: a database object is the record of what they
  return, \<open>GetGroup()\<close>, \<open>GetCtx()\<close> (a context, not nil: the default context when
  none was set), \<open>GetCore().QuoteWord\<close> and \<open>Master()\<close> (an error, or the pool).
\<close>

record DB =
  GetGroup :: string
  GetCtx :: "context"
  QuoteWord :: "string \<Rightarrow> string"
  Master :: "error + nat"

text \<open>
  \<open>type TX struct\<close>. The raw \<open>*sql.Tx\<close> is identified by the position of its
  \<open>BEGIN\<close> in the driver log. \<open>transactionCount\<close> is a Go \<open>int\<close>, taken as
  64 bits wide: an \<open>int\<close> here, wrapped by \<open>int64\<close> where the source does arithmetic.
\<close>

record TX =
  TX_db :: DB
  TX_tx :: nat
  TX_ctx :: "context option"
  TX_master :: nat
  TX_transactionId :: string
  TX_transactionCount :: int

definition int64 :: "int \<Rightarrow> int" where
  "int64 i = (i + 2 ^ 63) mod 2 ^ 64 - 2 ^ 63"

text \<open>The calls that reach the driver: \<open>master.Begin()\<close>, \<open>tx.tx.Commit()\<close>,
  \<open>tx.tx.Rollback()\<close> and a statement executed on a raw transaction.\<close>

datatype driver_call =
    SqlBegin nat
  | SqlCommit nat
  | SqlRollback nat
  | SqlExec nat string
  | Refused driver_call

text \<open>The text recorded for a call (\<open>sqlStr\<close> of the source).\<close>

fun sqlStr :: "driver_call \<Rightarrow> string" where
  "sqlStr (SqlBegin m) = ''BEGIN''"
| "sqlStr (SqlCommit t) = ''COMMIT''"
| "sqlStr (SqlRollback t) = ''ROLLBACK''"
| "sqlStr (SqlExec t s) = s"
| "sqlStr (Refused x) = sqlStr x"

text \<open>
  The state: the store of handles (a \<open>*TX\<close> is an index into it), the log of driver
  calls, the package variable \<open>transactionIdGenerator\<close>, and for each raw
  \<open>*sql.Tx\<close> whether it is finished (its \<open>done\<close> flag). The type
  \<open>gtype.Uint64\<close> is not part of the file; \<open>Add(1)\<close> is taken to add 1 and to return
  the new value, which only ends up in the context under the logger's key.
\<close>

record world =
  handles :: "TX list"
  calls :: "driver_call list"
  transactionIdGenerator :: "64 word"
  sqlTx_done :: "nat \<Rightarrow> bool"

text \<open>
  What lies outside the program: the driver's answer to the call at each position of the
  log (\<open>None\<close>: the call succeeds), and the identifiers \<open>guid.S()\<close> produces.
\<close>

record env =
  driver :: "nat \<Rightarrow> error option"
  guid_S :: "nat \<Rightarrow> string"

definition transactionPointerPrefix :: string where
  "transactionPointerPrefix = ''transaction''"

definition contextTransactionKeyPrefix :: string where
  "contextTransactionKeyPrefix = ''TransactionObjectForGroup_''"

definition transactionIdForLoggerCtx :: string where
  "transactionIdForLoggerCtx = ''TransactionId''"

subsection \<open>gconv.String on an int\<close>

text \<open>
  Modelled from the spec: \<open>gconv.String\<close> is not part of the file. The spec has the
  name of a save point be the fixed prefix followed by the decimal nesting counter, so
  \<open>gconv_String\<close> writes an \<open>int\<close> in decimal, with a minus sign when negative.
\<close>

fun decimal :: "nat \<Rightarrow> string" where
  "decimal n = (if n < 10 then [''0123456789'' ! n]
     else decimal (n div 10) @ [''0123456789'' ! (n mod 10)])"

declare decimal.simps [simp del]

definition gconv_String :: "int \<Rightarrow> string" where
  "gconv_String i = (if i < 0 then ''-'' @ decimal (nat (- i)) else decimal (nat i))"

subsection \<open>Context binding\<close>

definition transactionKeyForContext :: "string \<Rightarrow> string" where
  "transactionKeyForContext grp = contextTransactionKeyPrefix @ grp"

definition set_ctx :: "nat \<Rightarrow> context option \<Rightarrow> world \<Rightarrow> world" where
  "set_ctx a c w = w\<lparr>handles := (handles w)[a := (handles w ! a)\<lparr>TX_ctx := c\<rparr>]\<rparr>"

text \<open>
  \<open>TXFromCtx\<close>. The type assertion \<open>v.(*TX)\<close> panics on a value of another type,
  and the assignment \<open>tx.ctx = ctx\<close> panics through a nil \<open>*TX\<close>.
\<close>

definition TXFromCtx :: "context option \<Rightarrow> string \<Rightarrow> world \<Rightarrow> nat option outcome \<times> world" where
  "TXFromCtx ctx grp w =
     (case ctx of
        None \<Rightarrow> (Returns None, w)
      | Some c \<Rightarrow>
          (case Value c (transactionKeyForContext grp) of
             NilValue \<Rightarrow> (Returns None, w)
           | TXPointer (Some a) \<Rightarrow> (Returns (Some a), set_ctx a (Some c) w)
           | TXPointer None \<Rightarrow>
               (Panics (Some (PanicValue ''runtime error: invalid memory address or nil pointer dereference'')), w)
           | Uint64Value u \<Rightarrow>
               (Panics (Some (PanicValue ''interface conversion: interface {} is uint64, not *gdb.TX'')), w)
           | OtherValue t \<Rightarrow>
               (Panics (Some (PanicValue (''interface conversion: interface {} is '' @ t @ '', not *gdb.TX''))), w)))"

text \<open>\<open>WithTX\<close>. \<open>context.WithValue\<close> panics on a nil parent.\<close>

definition WithTX :: "context option \<Rightarrow> nat option \<Rightarrow> world \<Rightarrow> context option outcome \<times> world" where
  "WithTX ctx tx w =
     (case tx of
        None \<Rightarrow> (Returns ctx, w)
      | Some a \<Rightarrow>
          (let grp = GetGroup (TX_db (handles w ! a)) in
           case TXFromCtx ctx grp w of
             (Panics p, w1) \<Rightarrow> (Panics p, w1)
           | (Returns r1, w1) \<Rightarrow>
               if (case r1 of None \<Rightarrow> False
                   | Some b \<Rightarrow> GetGroup (TX_db (handles w1 ! b)) = grp)
               then (Returns ctx, w1)
               else
                 (let dbCtx = GetCtx (TX_db (handles w1 ! a)) in
                  case TXFromCtx (Some dbCtx) grp w1 of
                    (Panics p, w2) \<Rightarrow> (Panics p, w2)
                  | (Returns r2, w2) \<Rightarrow>
                      if (case r2 of None \<Rightarrow> False
                          | Some b \<Rightarrow> GetGroup (TX_db (handles w2 ! b)) = grp)
                      then (Returns (Some dbCtx), w2)
                      else
                        (case ctx of
                           None \<Rightarrow> (Panics (Some (PanicValue ''cannot create context from nil parent'')), w2)
                         | Some c \<Rightarrow>
                             (Returns (Some (WithValue c (transactionKeyForContext grp)
                                               (TXPointer (Some a)))), w2)))))"

subsection \<open>The transaction handle\<close>

definition transactionKeyForNestedPoint :: "TX \<Rightarrow> string" where
  "transactionKeyForNestedPoint t =
     QuoteWord (TX_db t) (transactionPointerPrefix @ gconv_String (TX_transactionCount t))"

definition set_count :: "nat \<Rightarrow> int \<Rightarrow> world \<Rightarrow> world" where
  "set_count a n w = w\<lparr>handles := (handles w)[a := (handles w ! a)\<lparr>TX_transactionCount := n\<rparr>]\<rparr>"

text \<open>
  Modelled from the spec: \<open>tx.Exec\<close> hands the statement to \<open>DoExec\<close> with the
  handle's raw transaction as the link, and \<open>DoExec\<close> is not part of the file. By the
  spec, \<open>exec\<close> routes the statement through the owned physical transaction and a
  statement's failure is the return value of that call: the statement reaches the driver on
  the handle's raw transaction, and the driver's answer is returned.
\<close>

definition TX_Exec :: "env \<Rightarrow> nat \<Rightarrow> string \<Rightarrow> world \<Rightarrow> error option \<times> world" where
  "TX_Exec E a sql w =
     (driver E (length (calls w)),
      w\<lparr>calls := calls w @ [SqlExec (TX_tx (handles w ! a)) sql]\<rparr>)"

text \<open>
  \<open>tx.tx\<close> is a \<open>*sql.Tx\<close> of the standard library, whose \<open>Commit\<close> and
  \<open>Rollback\<close> are documented to fail with \<open>ErrTxDone\<close> once the transaction has been
  committed or rolled back. Such a call does not reach the driver. The first \<open>Commit\<close> or
  \<open>Rollback\<close> reaches the driver and finishes the transaction, whatever the driver
  answers.
\<close>

definition ErrTxDone :: error where
  "ErrTxDone = Error ''sql: transaction has already been committed or rolled back''"

definition sql_Tx_Commit :: "env \<Rightarrow> nat \<Rightarrow> world \<Rightarrow> error option \<times> world" where
  "sql_Tx_Commit E t w =
     (if sqlTx_done w t then
        (Some ErrTxDone, w\<lparr>calls := calls w @ [Refused (SqlCommit t)]\<rparr>)
      else
        (driver E (length (calls w)),
         w\<lparr>calls := calls w @ [SqlCommit t], sqlTx_done := (sqlTx_done w)(t := True)\<rparr>))"

definition sql_Tx_Rollback :: "env \<Rightarrow> nat \<Rightarrow> world \<Rightarrow> error option \<times> world" where
  "sql_Tx_Rollback E t w =
     (if sqlTx_done w t then
        (Some ErrTxDone, w\<lparr>calls := calls w @ [Refused (SqlRollback t)]\<rparr>)
      else
        (driver E (length (calls w)),
         w\<lparr>calls := calls w @ [SqlRollback t], sqlTx_done := (sqlTx_done w)(t := True)\<rparr>))"

definition TX_Commit :: "env \<Rightarrow> nat \<Rightarrow> world \<Rightarrow> error option \<times> world" where
  "TX_Commit E a w =
     (if TX_transactionCount (handles w ! a) > 0 then
        (let w1 = set_count a (int64 (TX_transactionCount (handles w ! a) - 1)) w
         in TX_Exec E a (''RELEASE SAVEPOINT '' @ transactionKeyForNestedPoint (handles w1 ! a)) w1)
      else sql_Tx_Commit E (TX_tx (handles w ! a)) w)"

definition TX_Rollback :: "env \<Rightarrow> nat \<Rightarrow> world \<Rightarrow> error option \<times> world" where
  "TX_Rollback E a w =
     (if TX_transactionCount (handles w ! a) > 0 then
        (let w1 = set_count a (int64 (TX_transactionCount (handles w ! a) - 1)) w
         in TX_Exec E a (''ROLLBACK TO SAVEPOINT '' @ transactionKeyForNestedPoint (handles w1 ! a)) w1)
      else sql_Tx_Rollback E (TX_tx (handles w ! a)) w)"

definition TX_Begin :: "env \<Rightarrow> nat \<Rightarrow> world \<Rightarrow> error option \<times> world" where
  "TX_Begin E a w =
     (case TX_Exec E a (''SAVEPOINT '' @ transactionKeyForNestedPoint (handles w ! a)) w of
        (Some err, w1) \<Rightarrow> (Some err, w1)
      | (None, w1) \<Rightarrow>
          (None, set_count a (int64 (TX_transactionCount (handles w1 ! a) + 1)) w1))"

definition TX_SavePoint :: "env \<Rightarrow> nat \<Rightarrow> string \<Rightarrow> world \<Rightarrow> error option \<times> world" where
  "TX_SavePoint E a point w =
     TX_Exec E a (''SAVEPOINT '' @ QuoteWord (TX_db (handles w ! a)) point) w"

definition TX_RollbackTo :: "env \<Rightarrow> nat \<Rightarrow> string \<Rightarrow> world \<Rightarrow> error option \<times> world" where
  "TX_RollbackTo E a point w =
     TX_Exec E a (''ROLLBACK TO SAVEPOINT '' @ QuoteWord (TX_db (handles w ! a)) point) w"

subsection \<open>Opening a transaction\<close>

text \<open>
  \<open>doBeginCtx\<close> returns the pair \<open>(tx, err)\<close>. The new handle is allocated at the
  next free address, and the \<open>*sql.Tx\<close> that \<open>master.Begin()\<close> returns is not
  finished. Within the composite literal the generator is advanced before
  \<open>context.WithValue\<close> is entered.
\<close>

definition doBeginCtx ::
  "env \<Rightarrow> DB \<Rightarrow> context option \<Rightarrow> world \<Rightarrow> (nat option \<times> error option) outcome \<times> world" where
  "doBeginCtx E c ctx w =
     (case Master c of
        Inl err \<Rightarrow> (Returns (None, Some err), w)
      | Inr master \<Rightarrow>
          (let rawTx = length (calls w);
               err = driver E rawTx;
               w1 = w\<lparr>calls := calls w @ [SqlBegin master]\<rparr>
           in case err of
                Some e \<Rightarrow> (Returns (None, Some e), w1)
              | None \<Rightarrow>
                  (let n = transactionIdGenerator w1 + 1;
                       w2 = w1\<lparr>transactionIdGenerator := n,
                              sqlTx_done := (sqlTx_done w1)(rawTx := False)\<rparr>
                   in case ctx of
                        None \<Rightarrow> (Panics (Some (PanicValue ''cannot create context from nil parent'')), w2)
                      | Some cx \<Rightarrow>
                          (Returns (Some (length (handles w2)), None),
                           w2\<lparr>handles := handles w2 @
                             [\<lparr>TX_db = c, TX_tx = rawTx,
                               TX_ctx = Some (WithValue cx transactionIdForLoggerCtx (Uint64Value n)),
                               TX_master = master, TX_transactionId = guid_S E rawTx,
                               TX_transactionCount = 0\<rparr>]\<rparr>))))"

definition Core_Begin :: "env \<Rightarrow> DB \<Rightarrow> world \<Rightarrow> (nat option \<times> error option) outcome \<times> world" where
  "Core_Begin E c w = doBeginCtx E c (Some (GetCtx c)) w"

subsection \<open>The unit of work\<close>

text \<open>
  The function \<open>f\<close> handed to \<open>Transaction\<close>: it receives the context and the handle,
  acts on the world, and returns an error (or nil) or panics.
\<close>

type_synonym ufunc = "context option \<Rightarrow> nat \<Rightarrow> world \<Rightarrow> error option outcome \<times> world"

text \<open>\<open>fmt.Errorf("%v", e)\<close> on a recovered value.\<close>

fun Errorf_v :: "panic_value \<Rightarrow> error" where
  "Errorf_v (PanicValue s) = Error s"

text \<open>
  What \<open>recover()\<close> yields in the deferred closure: nil when \<open>f\<close> returned, and the
  value given to \<open>panic\<close>, nil or not, when \<open>f\<close> panicked. In both cases the closure
  goes on and the call returns.
\<close>

definition recover :: "'a outcome \<Rightarrow> panic_value option" where
  "recover out = (case out of Returns x \<Rightarrow> None | Panics e \<Rightarrow> e)"

text \<open>
  The deferred closure, the same text in \<open>Core.Transaction\<close> and in \<open>TX.Transaction\<close>.
  It runs when \<open>f\<close> has returned (\<open>err\<close> holds what \<open>f\<close> returned) or has panicked
  (\<open>err\<close> is still nil). With \<open>err\<close> nil it asks \<open>recover()\<close>, and only a non-nil
  answer becomes the error.
\<close>

definition Transaction_deferred :: "env \<Rightarrow> nat \<Rightarrow> error option outcome \<times> world \<Rightarrow> error option outcome \<times> world" where
  "Transaction_deferred E a r =
     (case r of (out, w) \<Rightarrow>
        (let err0 = (case out of Returns e \<Rightarrow> e | Panics p \<Rightarrow> None);
             err = (case err0 of
                      Some e \<Rightarrow> Some e
                    | None \<Rightarrow>
                        (case recover out of None \<Rightarrow> None | Some e \<Rightarrow> Some (Errorf_v e)))
         in case err of
              Some e0 \<Rightarrow>
                (case TX_Rollback E a w of
                   (Some e, w1) \<Rightarrow> (Returns (Some e), w1)
                 | (None, w1) \<Rightarrow> (Returns (Some e0), w1))
            | None \<Rightarrow>
                (case TX_Commit E a w of
                   (Some e, w1) \<Rightarrow> (Returns (Some e), w1)
                 | (None, w1) \<Rightarrow> (Returns None, w1))))"

definition TX_Transaction :: "env \<Rightarrow> nat \<Rightarrow> context option \<Rightarrow> ufunc \<Rightarrow> world \<Rightarrow> error option outcome \<times> world" where
  "TX_Transaction E a ctx f w =
     (let w1 = (case ctx of None \<Rightarrow> w | Some c \<Rightarrow> set_ctx a ctx w) in
      case TXFromCtx (TX_ctx (handles w1 ! a)) (GetGroup (TX_db (handles w1 ! a))) w1 of
        (Panics p, w2) \<Rightarrow> (Panics p, w2)
      | (Returns found, w2) \<Rightarrow>
          (case (case found of
                   Some b \<Rightarrow> (Returns (), w2)
                 | None \<Rightarrow>
                     (case WithTX (TX_ctx (handles w2 ! a)) (Some a) w2 of
                        (Panics p, w3) \<Rightarrow> (Panics p, w3)
                      | (Returns ctx', w3) \<Rightarrow> (Returns (), set_ctx a ctx' w3))) of
             (Panics p, w3) \<Rightarrow> (Panics p, w3)
           | (Returns u, w3) \<Rightarrow>
               (case TX_Begin E a w3 of
                  (Some err, w4) \<Rightarrow> (Returns (Some err), w4)
                | (None, w4) \<Rightarrow>
                    Transaction_deferred E a (f (TX_ctx (handles w4 ! a)) a w4))))"

definition Core_Transaction :: "env \<Rightarrow> DB \<Rightarrow> context option \<Rightarrow> ufunc \<Rightarrow> world \<Rightarrow> error option outcome \<times> world" where
  "Core_Transaction E c ctx f w =
     (let ctx1 = (case ctx of None \<Rightarrow> Some (GetCtx c) | Some cx \<Rightarrow> ctx) in
      case TXFromCtx ctx1 (GetGroup c) w of
        (Panics p, w1) \<Rightarrow> (Panics p, w1)
      | (Returns (Some a), w1) \<Rightarrow> TX_Transaction E a ctx1 f w1
      | (Returns None, w1) \<Rightarrow>
          (case doBeginCtx E c ctx1 w1 of
             (Panics p, w2) \<Rightarrow> (Panics p, w2)
           | (Returns (tx, Some err), w2) \<Rightarrow> (Returns (Some err), w2)
           | (Returns (None, None), w2) \<Rightarrow>
               (Panics (Some (PanicValue ''runtime error: invalid memory address or nil pointer dereference'')), w2)
           | (Returns (Some a, None), w2) \<Rightarrow>
               (case WithTX (TX_ctx (handles w2 ! a)) (Some a) w2 of
                  (Panics p, w3) \<Rightarrow> (Panics p, w3)
                | (Returns ctx', w3) \<Rightarrow>
                    (let w4 = set_ctx a ctx' w3
                     in Transaction_deferred E a (f (TX_ctx (handles w4 ! a)) a w4)))))"

subsection \<open>Callers\<close>

text \<open>
  The functions handed to \<open>Transaction\<close> in the statements below. \<open>exec_all\<close>
  runs statements through \<open>tx.Exec\<close> and goes on whatever they answer.
  \<open>nested E c ls body r\<close> is the function at the top of a nest: for each entry
  \<open>(pre, post)\<close> of \<open>ls\<close> it runs the statements \<open>pre\<close>, calls
  \<open>Transaction\<close> on the context it was given with the function for the rest of the nest,
  returns that call's error if there is one, and otherwise runs \<open>post\<close> and returns nil.
  The innermost function runs \<open>body\<close> and ends with \<open>r\<close>.
\<close>

fun exec_all :: "env \<Rightarrow> nat \<Rightarrow> string list \<Rightarrow> world \<Rightarrow> world" where
  "exec_all E a [] w = w"
| "exec_all E a (s # ss) w = exec_all E a ss (snd (TX_Exec E a s w))"

fun nested ::
  "env \<Rightarrow> DB \<Rightarrow> (string list \<times> string list) list \<Rightarrow> string list \<Rightarrow> error option outcome \<Rightarrow> ufunc" where
  "nested E c [] body r = (\<lambda>ctx tx w. (r, exec_all E tx body w))"
| "nested E c ((pre, post) # ls) body r = (\<lambda>ctx tx w.
     case Core_Transaction E c ctx (nested E c ls body r) (exec_all E tx pre w) of
       (Returns None, w1) \<Rightarrow> (Returns None, exec_all E tx post w1)
     | (Returns (Some err), w1) \<Rightarrow> (Returns (Some err), w1)
     | (Panics p, w1) \<Rightarrow> (Panics p, w1))"

text \<open>A caller that drives one handle directly with \<open>Begin\<close>, \<open>Commit\<close> and
  \<open>Rollback\<close>, whatever they return.\<close>

datatype tx_op = OpBegin | OpCommit | OpRollback

fun apply_op :: "env \<Rightarrow> nat \<Rightarrow> tx_op \<Rightarrow> world \<Rightarrow> world" where
  "apply_op E a OpBegin w = snd (TX_Begin E a w)"
| "apply_op E a OpCommit w = snd (TX_Commit E a w)"
| "apply_op E a OpRollback w = snd (TX_Rollback E a w)"

fun run_ops :: "env \<Rightarrow> nat \<Rightarrow> tx_op list \<Rightarrow> world \<Rightarrow> world" where
  "run_ops E a [] w = w"
| "run_ops E a (x # xs) w = run_ops E a xs (apply_op E a x w)"

subsection \<open>What the statements below speak of\<close>

text \<open>The save point named after depth \<open>k\<close>, and the three statements on it.\<close>

definition savepoint_name :: "DB \<Rightarrow> int \<Rightarrow> string" where
  "savepoint_name c k = QuoteWord c (''transaction'' @ gconv_String k)"

definition SAVEPOINT :: "DB \<Rightarrow> int \<Rightarrow> string" where
  "SAVEPOINT c k = ''SAVEPOINT '' @ savepoint_name c k"

definition RELEASE_SAVEPOINT :: "DB \<Rightarrow> int \<Rightarrow> string" where
  "RELEASE_SAVEPOINT c k = ''RELEASE SAVEPOINT '' @ savepoint_name c k"

definition ROLLBACK_TO_SAVEPOINT :: "DB \<Rightarrow> int \<Rightarrow> string" where
  "ROLLBACK_TO_SAVEPOINT c k = ''ROLLBACK TO SAVEPOINT '' @ savepoint_name c k"

text \<open>
  \<open>at_depth w a cx k cs\<close>: the world \<open>w\<close> after the driver calls \<open>cs\<close>, with handle
  \<open>a\<close> pointing at context \<open>cx\<close> and its counter at \<open>k\<close>. Nothing else differs
  from \<open>w\<close>.
\<close>

definition at_depth :: "world \<Rightarrow> nat \<Rightarrow> context \<Rightarrow> int \<Rightarrow> driver_call list \<Rightarrow> world" where
  "at_depth w a cx k cs =
     w\<lparr>calls := calls w @ cs,
       handles := (handles w)[a := (handles w ! a)\<lparr>TX_ctx := Some cx, TX_transactionCount := k\<rparr>]\<rparr>"

text \<open>Handle \<open>a\<close> exists, belongs to \<open>c\<close>, and \<open>cx\<close> carries it for the group of \<open>c\<close>.\<close>

definition bound_handle :: "world \<Rightarrow> nat \<Rightarrow> DB \<Rightarrow> context \<Rightarrow> bool" where
  "bound_handle w a c cx \<longleftrightarrow>
     a < length (handles w) \<and> TX_db (handles w ! a) = c \<and>
     Value cx (transactionKeyForContext (GetGroup c)) = TXPointer (Some a)"

text \<open>
  The context that \<open>Core.Transaction\<close> builds over \<open>cx0\<close> when it opens a
  transaction in \<open>w\<close>, and the world in which it then calls \<open>f\<close>: the \<open>BEGIN\<close> is
  logged, the generator has advanced, and the new handle sits at the next address.
\<close>

definition bound_ctx :: "DB \<Rightarrow> context \<Rightarrow> world \<Rightarrow> context" where
  "bound_ctx c cx0 w =
     WithValue (WithValue cx0 transactionIdForLoggerCtx (Uint64Value (transactionIdGenerator w + 1)))
       (transactionKeyForContext (GetGroup c)) (TXPointer (Some (length (handles w))))"

definition opened :: "env \<Rightarrow> DB \<Rightarrow> nat \<Rightarrow> context \<Rightarrow> world \<Rightarrow> world" where
  "opened E c m cx0 w =
     w\<lparr>calls := calls w @ [SqlBegin m],
       transactionIdGenerator := transactionIdGenerator w + 1,
       sqlTx_done := (sqlTx_done w)(length (calls w) := False),
       handles := handles w @
         [\<lparr>TX_db = c, TX_tx = length (calls w), TX_ctx = Some (bound_ctx c cx0 w),
           TX_master = m, TX_transactionId = guid_S E (length (calls w)),
           TX_transactionCount = 0\<rparr>]\<rparr>"

text \<open>
  The calls expected of a nest that commits, on raw transaction \<open>t\<close> from depth \<open>k\<close>:
  every level brackets the deeper ones between its \<open>SAVEPOINT\<close> and the
  \<open>RELEASE SAVEPOINT\<close> of the same name.
\<close>

fun committed_trace ::
  "DB \<Rightarrow> nat \<Rightarrow> int \<Rightarrow> (string list \<times> string list) list \<Rightarrow> string list \<Rightarrow> driver_call list" where
  "committed_trace c t k [] body = map (SqlExec t) body"
| "committed_trace c t k ((pre, post) # ls) body =
     map (SqlExec t) pre @
     [SqlExec t (SAVEPOINT c k)] @
     committed_trace c t (k + 1) ls body @
     [SqlExec t (RELEASE_SAVEPOINT c k)] @
     map (SqlExec t) post"

text \<open>
  The calls expected of a nest whose innermost function fails: the way down to the
  innermost function, and the way back up, deepest save point first.
\<close>

fun descend_trace ::
  "DB \<Rightarrow> nat \<Rightarrow> int \<Rightarrow> (string list \<times> string list) list \<Rightarrow> string list \<Rightarrow> driver_call list" where
  "descend_trace c t k [] body = map (SqlExec t) body"
| "descend_trace c t k ((pre, post) # ls) body =
     map (SqlExec t) pre @ [SqlExec t (SAVEPOINT c k)] @ descend_trace c t (k + 1) ls body"

fun unwind_trace :: "DB \<Rightarrow> nat \<Rightarrow> int \<Rightarrow> (string list \<times> string list) list \<Rightarrow> driver_call list" where
  "unwind_trace c t k [] = []"
| "unwind_trace c t k (l # ls) =
     unwind_trace c t (k + 1) ls @ [SqlExec t (ROLLBACK_TO_SAVEPOINT c k)]"

text \<open>
  The error that is left of \<open>e\<close> after the driver calls at the positions \<open>ns\<close>, each of
  which replaces it when it fails.
\<close>

definition superseded :: "env \<Rightarrow> error \<Rightarrow> nat list \<Rightarrow> error" where
  "superseded E e ns = foldl (\<lambda>e n. case driver E n of None \<Rightarrow> e | Some e' \<Rightarrow> e') e ns"

text \<open>
  Reading a log: the argument of each executed statement that starts with the keyword
  \<open>kw\<close>, in order; the statements a nest's functions run themselves; and a statement
  that is neither a \<open>SAVEPOINT\<close> nor a \<open>RELEASE SAVEPOINT\<close>.
\<close>

fun strip_prefix :: "string \<Rightarrow> string \<Rightarrow> string option" where
  "strip_prefix [] s = Some s"
| "strip_prefix (k # ks) [] = None"
| "strip_prefix (k # ks) (x # xs) = (if k = x then strip_prefix ks xs else None)"

fun stmt_arg :: "string \<Rightarrow> driver_call \<Rightarrow> string option" where
  "stmt_arg kw (SqlExec t s) = strip_prefix kw s"
| "stmt_arg kw (SqlBegin m) = None"
| "stmt_arg kw (SqlCommit t) = None"
| "stmt_arg kw (SqlRollback t) = None"
| "stmt_arg kw (Refused x) = None"

definition names_of :: "string \<Rightarrow> driver_call list \<Rightarrow> string list" where
  "names_of kw cs = List.map_filter (stmt_arg kw) cs"

fun user_statements :: "(string list \<times> string list) list \<Rightarrow> string list \<Rightarrow> string list" where
  "user_statements [] body = body"
| "user_statements ((pre, post) # ls) body = pre @ post @ user_statements ls body"

definition plain_statement :: "string \<Rightarrow> bool" where
  "plain_statement s \<longleftrightarrow>
     strip_prefix ''SAVEPOINT '' s = None \<and> strip_prefix ''RELEASE SAVEPOINT '' s = None"

fun is_SqlBegin :: "driver_call \<Rightarrow> bool" where
  "is_SqlBegin (SqlBegin m) = True"
| "is_SqlBegin (SqlCommit t) = False"
| "is_SqlBegin (SqlRollback t) = False"
| "is_SqlBegin (SqlExec t s) = False"
| "is_SqlBegin (Refused x) = False"

fun is_SqlCommit :: "driver_call \<Rightarrow> bool" where
  "is_SqlCommit (SqlCommit t) = True"
| "is_SqlCommit (SqlBegin m) = False"
| "is_SqlCommit (SqlRollback t) = False"
| "is_SqlCommit (SqlExec t s) = False"
| "is_SqlCommit (Refused x) = False"

fun is_finalization :: "driver_call \<Rightarrow> bool" where
  "is_finalization (SqlCommit t) = True"
| "is_finalization (SqlRollback t) = True"
| "is_finalization (SqlBegin m) = False"
| "is_finalization (SqlExec t s) = False"
| "is_finalization (Refused x) = False"

definition physical_finalizations :: "driver_call list \<Rightarrow> nat" where
  "physical_finalizations cs = length (filter is_finalization cs)"

text \<open>The number of \<open>COMMIT\<close> and \<open>ROLLBACK\<close> calls of a log that reached the driver
  on raw transaction \<open>t\<close>.\<close>

definition finalizations_of :: "nat \<Rightarrow> driver_call list \<Rightarrow> nat" where
  "finalizations_of t cs = length (filter (\<lambda>x. x = SqlCommit t \<or> x = SqlRollback t) cs)"

text \<open>The number of \<open>Commit\<close> and \<open>Rollback\<close> operations of a run that find the
  counter at 0.\<close>

fun finalizers_at_zero :: "env \<Rightarrow> nat \<Rightarrow> tx_op list \<Rightarrow> world \<Rightarrow> nat" where
  "finalizers_at_zero E a [] w = 0"
| "finalizers_at_zero E a (x # xs) w =
     (if x \<noteq> OpBegin \<and> TX_transactionCount (handles w ! a) = 0 then 1 else 0) +
     finalizers_at_zero E a xs (apply_op E a x w)"

subsection \<open>Concrete objects\<close>

text \<open>
  A database of group \<open>default\<close> whose quoting leaves a word as it is, a driver on
  which every call succeeds, the empty world, and the world in which one transaction is
  open at depth 1.
\<close>

definition db0 :: DB where
  "db0 = \<lparr>GetGroup = ''default'', GetCtx = [], QuoteWord = (\<lambda>s. s), Master = Inr 0\<rparr>"

definition env_ok :: env where
  "env_ok = \<lparr>driver = (\<lambda>n. None), guid_S = (\<lambda>n. ''guid'')\<rparr>"

definition world0 :: world where
  "world0 = \<lparr>handles = [], calls = [], transactionIdGenerator = 0,
              sqlTx_done = (\<lambda>t. False)\<rparr>"

definition ctx1 :: "context" where
  "ctx1 = [(''TransactionObjectForGroup_default'', TXPointer (Some 0)),
           (''TransactionId'', Uint64Value 1)]"

definition world1 :: world where
  "world1 =
     \<lparr>handles = [\<lparr>TX_db = db0, TX_tx = 0, TX_ctx = Some ctx1, TX_master = 0,
                   TX_transactionId = ''guid'', TX_transactionCount = 1\<rparr>],
      calls = [SqlBegin 0, SqlExec 0 ''SAVEPOINT transaction0''],
      transactionIdGenerator = 1,
      sqlTx_done = (\<lambda>t. False)\<rparr>"


section \<open>Auxiliary facts\<close>

lemma int64_id: "- (2 ^ 63) \<le> i \<Longrightarrow> i < 2 ^ 63 \<Longrightarrow> int64 i = i"
  unfolding int64_def by (simp add: mod_pos_pos_trivial)

lemma transactionKeyForNestedPoint_eq:
  "transactionKeyForNestedPoint t = savepoint_name (TX_db t) (TX_transactionCount t)"
  by (simp add: transactionKeyForNestedPoint_def savepoint_name_def transactionPointerPrefix_def)

lemma recover_simps [simp]:
  "recover (Returns x) = None" "recover (Panics e) = e"
  by (simp_all add: recover_def)

lemma TX_update_swap:
  "r\<lparr>TX_transactionCount := k, TX_ctx := c\<rparr> = r\<lparr>TX_ctx := c, TX_transactionCount := k\<rparr>"
  by (rule TX.equality) simp_all

subsection \<open>Operations on a handle at a known depth\<close>

lemma at_depth_simps [simp]:
  "calls (at_depth w a cx k cs) = calls w @ cs"
  "transactionIdGenerator (at_depth w a cx k cs) = transactionIdGenerator w"
  "sqlTx_done (at_depth w a cx k cs) = sqlTx_done w"
  "length (handles (at_depth w a cx k cs)) = length (handles w)"
  "a < length (handles w) \<Longrightarrow>
     handles (at_depth w a cx k cs) ! a = (handles w ! a)\<lparr>TX_ctx := Some cx, TX_transactionCount := k\<rparr>"
  by (simp_all add: at_depth_def)

lemma set_ctx_at_depth [simp]:
  "a < length (handles w) \<Longrightarrow> set_ctx a (Some cx) (at_depth w a cx k cs) = at_depth w a cx k cs"
  by (simp add: set_ctx_def at_depth_def TX_update_swap)

lemma set_count_at_depth [simp]:
  "a < length (handles w) \<Longrightarrow> set_count a k' (at_depth w a cx k cs) = at_depth w a cx k' cs"
  by (simp add: set_count_def at_depth_def)

lemma TX_Exec_at_depth [simp]:
  "a < length (handles w) \<Longrightarrow>
   TX_Exec E a s (at_depth w a cx k cs) =
     (driver E (length (calls w) + length cs),
      at_depth w a cx k (cs @ [SqlExec (TX_tx (handles w ! a)) s]))"
  by (simp add: TX_Exec_def at_depth_def)

lemma exec_all_at_depth [simp]:
  "a < length (handles w) \<Longrightarrow>
   exec_all E a ss (at_depth w a cx k cs) =
     at_depth w a cx k (cs @ map (SqlExec (TX_tx (handles w ! a))) ss)"
  by (induction ss arbitrary: cs) simp_all

lemma TX_Begin_at_depth:
  assumes "a < length (handles w)"
  shows "TX_Begin E a (at_depth w a cx k cs) =
     (case driver E (length (calls w) + length cs) of
        Some err \<Rightarrow>
          (Some err, at_depth w a cx k
             (cs @ [SqlExec (TX_tx (handles w ! a)) (SAVEPOINT (TX_db (handles w ! a)) k)]))
      | None \<Rightarrow>
          (None, at_depth w a cx (int64 (k + 1))
             (cs @ [SqlExec (TX_tx (handles w ! a)) (SAVEPOINT (TX_db (handles w ! a)) k)])))"
  using assms
  by (simp add: TX_Begin_def transactionKeyForNestedPoint_eq SAVEPOINT_def split: option.splits)

lemma TX_Commit_at_depth:
  assumes "a < length (handles w)" "0 < k"
  shows "TX_Commit E a (at_depth w a cx k cs) =
     (driver E (length (calls w) + length cs),
      at_depth w a cx (int64 (k - 1))
        (cs @ [SqlExec (TX_tx (handles w ! a))
                 (RELEASE_SAVEPOINT (TX_db (handles w ! a)) (int64 (k - 1)))]))"
  using assms
  by (simp add: TX_Commit_def transactionKeyForNestedPoint_eq RELEASE_SAVEPOINT_def Let_def)

lemma TX_Rollback_at_depth:
  assumes "a < length (handles w)" "0 < k"
  shows "TX_Rollback E a (at_depth w a cx k cs) =
     (driver E (length (calls w) + length cs),
      at_depth w a cx (int64 (k - 1))
        (cs @ [SqlExec (TX_tx (handles w ! a))
                 (ROLLBACK_TO_SAVEPOINT (TX_db (handles w ! a)) (int64 (k - 1)))]))"
  using assms
  by (simp add: TX_Rollback_def transactionKeyForNestedPoint_eq ROLLBACK_TO_SAVEPOINT_def Let_def)

lemma TX_Commit_at_zero:
  assumes "a < length (handles w)" "\<not> sqlTx_done w (TX_tx (handles w ! a))"
  shows "TX_Commit E a (at_depth w a cx 0 cs) =
     (driver E (length (calls w) + length cs),
      (at_depth w a cx 0 (cs @ [SqlCommit (TX_tx (handles w ! a))]))
        \<lparr>sqlTx_done := (sqlTx_done w)(TX_tx (handles w ! a) := True)\<rparr>)"
  using assms by (simp add: TX_Commit_def sql_Tx_Commit_def) (simp add: at_depth_def)

lemma TX_Rollback_at_zero:
  assumes "a < length (handles w)" "\<not> sqlTx_done w (TX_tx (handles w ! a))"
  shows "TX_Rollback E a (at_depth w a cx 0 cs) =
     (driver E (length (calls w) + length cs),
      (at_depth w a cx 0 (cs @ [SqlRollback (TX_tx (handles w ! a))]))
        \<lparr>sqlTx_done := (sqlTx_done w)(TX_tx (handles w ! a) := True)\<rparr>)"
  using assms by (simp add: TX_Rollback_def sql_Tx_Rollback_def) (simp add: at_depth_def)

lemma Transaction_deferred_error_at_depth:
  assumes "a < length (handles w)" "0 < k"
  shows "Transaction_deferred E a (Returns (Some e), at_depth w a cx k cs) =
     (Returns (Some (case driver E (length (calls w) + length cs) of None \<Rightarrow> e | Some e' \<Rightarrow> e')),
      at_depth w a cx (int64 (k - 1))
        (cs @ [SqlExec (TX_tx (handles w ! a))
                 (ROLLBACK_TO_SAVEPOINT (TX_db (handles w ! a)) (int64 (k - 1)))]))"
  using assms
  by (simp add: Transaction_deferred_def TX_Rollback_at_depth split: option.splits)

lemma Transaction_deferred_error_at_zero:
  assumes "a < length (handles w)" "\<not> sqlTx_done w (TX_tx (handles w ! a))"
  shows "Transaction_deferred E a (Returns (Some e), at_depth w a cx 0 cs) =
     (Returns (Some (case driver E (length (calls w) + length cs) of None \<Rightarrow> e | Some e' \<Rightarrow> e')),
      (at_depth w a cx 0 (cs @ [SqlRollback (TX_tx (handles w ! a))]))
        \<lparr>sqlTx_done := (sqlTx_done w)(TX_tx (handles w ! a) := True)\<rparr>)"
  using assms
  by (simp add: Transaction_deferred_def TX_Rollback_at_zero split: option.splits)

lemma Transaction_deferred_nil_at_zero:
  assumes "a < length (handles w)" "\<not> sqlTx_done w (TX_tx (handles w ! a))"
  shows "Transaction_deferred E a (Returns None, at_depth w a cx 0 cs) =
     (Returns (driver E (length (calls w) + length cs)),
      (at_depth w a cx 0 (cs @ [SqlCommit (TX_tx (handles w ! a))]))
        \<lparr>sqlTx_done := (sqlTx_done w)(TX_tx (handles w ! a) := True)\<rparr>)"
  using assms
  by (simp add: Transaction_deferred_def TX_Commit_at_zero split: option.splits)

subsection \<open>Lookup and the two entry points\<close>

lemma TXFromCtx_bound:
  "Value cx (transactionKeyForContext g) = TXPointer (Some a) \<Longrightarrow>
   TXFromCtx (Some cx) g w = (Returns (Some a), set_ctx a (Some cx) w)"
  by (simp add: TXFromCtx_def)

lemma Core_Transaction_at_depth:
  assumes "bound_handle w a c cx"
  shows "Core_Transaction E c (Some cx) f (at_depth w a cx k cs) =
     (case TX_Begin E a (at_depth w a cx k cs) of
        (Some err, w4) \<Rightarrow> (Returns (Some err), w4)
      | (None, w4) \<Rightarrow> Transaction_deferred E a (f (TX_ctx (handles w4 ! a)) a w4))"
  using assms
  by (simp add: Core_Transaction_def TX_Transaction_def bound_handle_def TXFromCtx_bound Let_def)

lemma key_not_logger_key:
  "transactionKeyForContext g \<noteq> transactionIdForLoggerCtx"
  by (simp add: transactionKeyForContext_def contextTransactionKeyPrefix_def
      transactionIdForLoggerCtx_def)

lemma Value_WithValue:
  "Value (WithValue cx k v) k' = (if k = k' then v else Value cx k')"
  by (simp add: Value_def WithValue_def)

lemma Core_Transaction_None:
  "Core_Transaction E c None f w = Core_Transaction E c (Some (GetCtx c)) f w"
  by (simp add: Core_Transaction_def)

lemma Core_Transaction_opens:
  assumes "Master c = Inr m" "driver E (length (calls w)) = None"
    "Value cx0 (transactionKeyForContext (GetGroup c)) = NilValue"
    "Value (GetCtx c) (transactionKeyForContext (GetGroup c)) = NilValue"
  shows "Core_Transaction E c (Some cx0) f w =
     Transaction_deferred E (length (handles w))
       (f (Some (bound_ctx c cx0 w)) (length (handles w)) (opened E c m cx0 w))"
  using assms key_not_logger_key [of "GetGroup c"]
  apply (simp add: Core_Transaction_def TXFromCtx_def doBeginCtx_def Let_def WithTX_def Value_WithValue)
  apply (simp add: set_ctx_def opened_def bound_ctx_def)
  done

lemma opened_simps [simp]:
  "length (handles (opened E c m cx0 w)) = Suc (length (handles w))"
  "TX_db (handles (opened E c m cx0 w) ! length (handles w)) = c"
  "TX_tx (handles (opened E c m cx0 w) ! length (handles w)) = length (calls w)"
  "calls (opened E c m cx0 w) = calls w @ [SqlBegin m]"
  "\<not> sqlTx_done (opened E c m cx0 w) (length (calls w))"
  by (simp_all add: opened_def)

lemma opened_at_depth:
  "opened E c m cx0 w =
     at_depth (opened E c m cx0 w) (length (handles w)) (bound_ctx c cx0 w) 0 []"
  by (simp add: opened_def at_depth_def)

lemma bound_handle_opened:
  "bound_handle (opened E c m cx0 w) (length (handles w)) c (bound_ctx c cx0 w)"
  by (simp add: bound_handle_def) (simp add: bound_ctx_def Value_WithValue)

subsection \<open>A nest below a bound handle\<close>

lemma nested_commit:
  assumes ok: "\<forall>n. driver E n = None" and b: "bound_handle w a c cx"
  shows "0 \<le> k \<Longrightarrow> k + int (length ls) < 2 ^ 63 \<Longrightarrow>
     nested E c ls body (Returns None) (Some cx) a (at_depth w a cx k cs) =
       (Returns None, at_depth w a cx k (cs @ committed_trace c (TX_tx (handles w ! a)) k ls body))"
proof (induction ls arbitrary: k cs)
  case Nil
  from b show ?case by (simp add: bound_handle_def)
next
  case (Cons l ls)
  obtain pre post where l: "l = (pre, post)" by (cases l)
  from b have a: "a < length (handles w)" and db: "TX_db (handles w ! a) = c"
    by (simp_all add: bound_handle_def)
  from Cons.prems have k1: "0 \<le> k + 1" "k + 1 + int (length ls) < 2 ^ 63" by simp_all
  have i1: "int64 (k + 1) = k + 1" using Cons.prems by (intro int64_id) simp_all
  have i2: "int64 k = k" using Cons.prems by (intro int64_id) simp_all
  show ?case
    using a db Cons.IH [OF k1] Cons.prems(1)
    by (simp add: l Core_Transaction_at_depth [OF b] TX_Begin_at_depth ok i1 i2
        Transaction_deferred_def TX_Commit_at_depth)
qed

lemma length_unwind_trace [simp]: "length (unwind_trace c t k ls) = length ls"
  by (induction ls arbitrary: k) simp_all

lemma superseded_snoc:
  "superseded E e (ns @ [n]) =
     (case driver E n of None \<Rightarrow> superseded E e ns | Some e' \<Rightarrow> e')"
  by (cases "driver E n") (simp_all add: superseded_def)

lemma nested_rollback:
  assumes b: "bound_handle w a c cx"
  shows "0 \<le> k \<Longrightarrow> k + int (length ls) < 2 ^ 63 \<Longrightarrow>
     \<forall>n. length (calls w) + length cs \<le> n \<and>
         n < length (calls w) + length cs + length (descend_trace c (TX_tx (handles w ! a)) k ls body) \<longrightarrow>
         driver E n = None \<Longrightarrow>
     p = length (calls w) + length cs + length (descend_trace c (TX_tx (handles w ! a)) k ls body) \<Longrightarrow>
     nested E c ls body (Returns (Some e0)) (Some cx) a (at_depth w a cx k cs) =
       (Returns (Some (superseded E e0 [p ..< p + length ls])),
        at_depth w a cx k (cs @ descend_trace c (TX_tx (handles w ! a)) k ls body @
           unwind_trace c (TX_tx (handles w ! a)) k ls))"
proof (induction ls arbitrary: k cs)
  case Nil
  from b show ?case by (simp add: bound_handle_def superseded_def)
next
  case (Cons l ls)
  obtain pre post where l: "l = (pre, post)" by (cases l)
  from b have a: "a < length (handles w)" and db: "TX_db (handles w ! a) = c"
    by (simp_all add: bound_handle_def)
  let ?t = "TX_tx (handles w ! a)"
  let ?cs' = "cs @ map (SqlExec ?t) pre @ [SqlExec ?t (SAVEPOINT c k)]"
  let ?D = "descend_trace c ?t (k + 1) ls body"
  let ?U = "unwind_trace c ?t (k + 1) ls"
  from Cons.prems have k1: "0 \<le> k + 1" "k + 1 + int (length ls) < 2 ^ 63" by simp_all
  have i1: "int64 (k + 1) = k + 1" using Cons.prems by (intro int64_id) simp_all
  have i2: "int64 k = k" using Cons.prems by (intro int64_id) simp_all
  have sp: "driver E (length (calls w) + length (cs @ map (SqlExec ?t) pre)) = None"
    using Cons.prems(3) by (simp add: l)
  have rest: "\<forall>n. length (calls w) + length ?cs' \<le> n \<and>
         n < length (calls w) + length ?cs' + length ?D \<longrightarrow> driver E n = None"
    using Cons.prems(3) by (simp add: l)
  have p: "p = length (calls w) + length ?cs' + length ?D"
    using Cons.prems(4) by (simp add: l)
  note IH = Cons.IH [OF k1 rest p]
  have pos: "length (calls w) + length (?cs' @ ?D @ ?U) = p + length ls"
    using p by simp
  have bg: "TX_Begin E a (at_depth w a cx k (cs @ map (SqlExec ?t) pre)) =
      (None, at_depth w a cx (k + 1) ?cs')"
    using a db by (simp only: TX_Begin_at_depth sp i1) simp
  have inner: "Core_Transaction E c (Some cx) (nested E c ls body (Returns (Some e0)))
        (at_depth w a cx k (cs @ map (SqlExec ?t) pre)) =
      (Returns (Some (superseded E e0 [p ..< p + length (l # ls)])),
       at_depth w a cx k (?cs' @ ?D @ ?U @ [SqlExec ?t (ROLLBACK_TO_SAVEPOINT c k)]))"
    using a db Cons.prems(1)
    apply (simp add: Core_Transaction_at_depth [OF b] bg IH Transaction_deferred_error_at_depth
        pos i2 superseded_snoc del: append_assoc)
    apply (simp add: p add.assoc)
    done
  show ?case
    using a by (simp add: l inner [unfolded l])
qed

subsection \<open>Reading the log of a nest\<close>

lemma names_of_append [simp]: "names_of kw (xs @ ys) = names_of kw xs @ names_of kw ys"
  by (induction xs) (simp_all add: names_of_def List.map_filter_simps split: option.splits)

lemma names_of_Cons [simp]:
  "names_of kw (x # xs) = (case stmt_arg kw x of None \<Rightarrow> names_of kw xs | Some n \<Rightarrow> n # names_of kw xs)"
  by (cases "stmt_arg kw x") (simp_all add: names_of_def List.map_filter_simps)

lemma names_of_Nil [simp]: "names_of kw [] = []"
  by (simp add: names_of_def List.map_filter_simps)

lemma names_of_single [simp]:
  "names_of kw [x] = (case stmt_arg kw x of None \<Rightarrow> [] | Some n \<Rightarrow> [n])"
  by (simp add: names_of_def List.map_filter_simps split: option.splits)

lemma names_of_plain:
  "\<forall>s\<in>set ss. plain_statement s \<Longrightarrow>
   names_of ''SAVEPOINT '' (map (SqlExec t) ss) = [] \<and>
   names_of ''RELEASE SAVEPOINT '' (map (SqlExec t) ss) = []"
  by (induction ss) (simp_all add: names_of_def List.map_filter_simps plain_statement_def)

lemma strip_prefix_SAVEPOINT [simp]:
  "strip_prefix ''SAVEPOINT '' (SAVEPOINT c k) = Some (savepoint_name c k)"
  "strip_prefix ''RELEASE SAVEPOINT '' (SAVEPOINT c k) = None"
  "strip_prefix ''SAVEPOINT '' (RELEASE_SAVEPOINT c k) = None"
  "strip_prefix ''RELEASE SAVEPOINT '' (RELEASE_SAVEPOINT c k) = Some (savepoint_name c k)"
  by (simp_all add: SAVEPOINT_def RELEASE_SAVEPOINT_def)

lemma upt_shift: "map f [0..<Suc n] = f 0 # map (\<lambda>i. f (Suc i)) [0..<n]"
  by (simp add: upt_conv_Cons map_Suc_upt [symmetric] del: upt_Suc)

lemma names_of_committed_trace:
  "\<forall>s\<in>set (user_statements ls body). plain_statement s \<Longrightarrow>
   names_of ''SAVEPOINT '' (committed_trace c t k ls body) =
     map (\<lambda>i. savepoint_name c (k + int i)) [0..<length ls] \<and>
   names_of ''RELEASE SAVEPOINT '' (committed_trace c t k ls body) =
     rev (map (\<lambda>i. savepoint_name c (k + int i)) [0..<length ls])"
proof (induction ls arbitrary: k)
  case Nil
  then show ?case by (simp add: names_of_plain)
next
  case (Cons l ls)
  obtain pre post where l: "l = (pre, post)" by (cases l)
  from Cons.prems have u: "\<forall>s\<in>set pre. plain_statement s" "\<forall>s\<in>set post. plain_statement s"
    "\<forall>s\<in>set (user_statements ls body). plain_statement s"
    by (auto simp: l)
  have sh: "map (\<lambda>i. savepoint_name c (k + int i)) [0..<Suc (length ls)] =
      savepoint_name c k # map (\<lambda>i. savepoint_name c (k + 1 + int i)) [0..<length ls]"
    by (simp add: upt_shift add.assoc del: upt_Suc)
  show ?case
    using Cons.IH [OF u(3), of "k + 1"] names_of_plain [OF u(1), of t] names_of_plain [OF u(2), of t]
    by (simp add: l sh del: upt_Suc)
qed

lemma filter_is_SqlCommit_Exec [simp]: "filter is_SqlCommit (map (SqlExec t) ss) = []"
  by (induction ss) simp_all

lemma commits_committed_trace [simp]: "filter is_SqlCommit (committed_trace c t k ls body) = []"
  by (induction ls arbitrary: k) auto

lemma Core_Transaction_nested_commit:
  assumes ok: "\<forall>n. driver E n = None"
    and m: "Master c = Inr m"
    and fresh: "Value (case ctx of None \<Rightarrow> GetCtx c | Some cx \<Rightarrow> cx)
                  (transactionKeyForContext (GetGroup c)) = NilValue"
    and dbfresh: "Value (GetCtx c) (transactionKeyForContext (GetGroup c)) = NilValue"
    and depth: "int (length ls) < 2 ^ 63"
  shows "\<exists>w'. Core_Transaction E c ctx (nested E c ls body (Returns None)) w = (Returns None, w') \<and>
     calls w' = calls w @ [SqlBegin m] @ committed_trace c (length (calls w)) 0 ls body @
        [SqlCommit (length (calls w))]"
proof -
  define cx0 where "cx0 = (case ctx of None \<Rightarrow> GetCtx c | Some cx \<Rightarrow> cx)"
  let ?a = "length (handles w)"
  let ?cx = "bound_ctx c cx0 w"
  let ?o = "opened E c m cx0 w"
  have e0: "Core_Transaction E c ctx f w = Core_Transaction E c (Some cx0) f w" for f
    by (cases ctx) (simp_all add: cx0_def Core_Transaction_None)
  have d: "driver E (length (calls w)) = None" using ok by simp
  have run: "nested E c ls body (Returns None) (Some ?cx) ?a (at_depth ?o ?a ?cx 0 []) =
      (Returns None, at_depth ?o ?a ?cx 0 ([] @ committed_trace c (TX_tx (handles ?o ! ?a)) 0 ls body))"
    using depth by (intro nested_commit [OF ok bound_handle_opened]) simp_all
  have "Core_Transaction E c ctx (nested E c ls body (Returns None)) w =
      (Returns None, (at_depth ?o ?a ?cx 0
         (committed_trace c (length (calls w)) 0 ls body @ [SqlCommit (length (calls w))]))
         \<lparr>sqlTx_done := (sqlTx_done ?o)(length (calls w) := True)\<rparr>)"
    unfolding e0
    apply (subst Core_Transaction_opens [OF m d fresh [folded cx0_def] dbfresh])
    apply (subst opened_at_depth)
    apply (simp only: run)
    apply (simp add: Transaction_deferred_nil_at_zero ok)
    done
  then show ?thesis by simp
qed

lemma superseded_none:
  "\<forall>n\<in>set ns. driver E n = None \<Longrightarrow> superseded E e ns = e"
  by (induction ns rule: rev_induct) (simp_all add: superseded_snoc, simp add: superseded_def)


lemma length_descend_trace:
  "length (descend_trace c t k ls body) = length (descend_trace c t' k' ls body)"
  by (induction ls arbitrary: k k') auto

lemma Core_Transaction_nested_rollback:
  assumes m: "Master c = Inr m"
    and fresh: "Value (case ctx of None \<Rightarrow> GetCtx c | Some cx \<Rightarrow> cx)
                  (transactionKeyForContext (GetGroup c)) = NilValue"
    and dbfresh: "Value (GetCtx c) (transactionKeyForContext (GetGroup c)) = NilValue"
    and depth: "int (length ls) < 2 ^ 63"
    and t: "t = length (calls w)"
    and p: "p = t + 1 + length (descend_trace c t 0 ls body)"
    and ok: "\<forall>n. t \<le> n \<and> n < p \<longrightarrow> driver E n = None"
  shows "\<exists>w'. Core_Transaction E c ctx (nested E c ls body (Returns (Some e0))) w =
       (Returns (Some (superseded E e0 [p ..< p + length ls + 1])), w') \<and>
     calls w' = calls w @ [SqlBegin m] @ descend_trace c t 0 ls body @ unwind_trace c t 0 ls @
        [SqlRollback t]"
proof -
  define cx0 where "cx0 = (case ctx of None \<Rightarrow> GetCtx c | Some cx \<Rightarrow> cx)"
  let ?a = "length (handles w)"
  let ?cx = "bound_ctx c cx0 w"
  let ?o = "opened E c m cx0 w"
  let ?D = "descend_trace c t 0 ls body"
  let ?U = "unwind_trace c t 0 ls"
  have e0: "Core_Transaction E c ctx f w = Core_Transaction E c (Some cx0) f w" for f
    by (cases ctx) (simp_all add: cx0_def Core_Transaction_None)
  have d: "driver E (length (calls w)) = None" using ok t p by simp
  have tt: "TX_tx (handles ?o ! ?a) = t" by (simp add: t)
  have b: "bound_handle ?o ?a c ?cx" by (rule bound_handle_opened)
  have run: "nested E c ls body (Returns (Some e0)) (Some ?cx) ?a (at_depth ?o ?a ?cx 0 []) =
      (Returns (Some (superseded E e0 [p ..< p + length ls])),
       at_depth ?o ?a ?cx 0 ([] @ ?D @ ?U))"
    using nested_rollback [OF b, where k = 0 and cs = "[]" and p = p
        and ls = ls and body = body and E = E and ?e0.0 = e0] depth ok p t
    by (simp add: tt)
  have pos: "length (calls ?o) + length (?D @ ?U) = p + length ls"
    using p t by simp
  have "Core_Transaction E c ctx (nested E c ls body (Returns (Some e0))) w =
      (Returns (Some (superseded E e0 [p ..< p + length ls + 1])),
       (at_depth ?o ?a ?cx 0 (?D @ ?U @ [SqlRollback t]))
         \<lparr>sqlTx_done := (sqlTx_done ?o)(t := True)\<rparr>)"
    unfolding e0
    apply (subst Core_Transaction_opens [OF m d fresh [folded cx0_def] dbfresh])
    apply (subst opened_at_depth)
    apply (simp only: run append_Nil)
    apply (subst Transaction_deferred_error_at_zero)
      apply simp
     apply (simp add: t)
    apply (simp only: pos tt)
    apply (simp add: superseded_snoc)
    done
  then show ?thesis by simp
qed

lemma gconv_String_small:
  "gconv_String 0 = ''0''" "gconv_String 1 = ''1''" "gconv_String 2 = ''2''"
  by (simp_all add: gconv_String_def decimal.simps)

lemma savepoint_name_db0:
  "savepoint_name db0 0 = ''transaction0''" "savepoint_name db0 1 = ''transaction1''"
  by (simp_all add: savepoint_name_def db0_def gconv_String_small)

lemma filter_is_SqlBegin_Exec [simp]: "filter is_SqlBegin (map (SqlExec t) ss) = []"
  by (induction ss) simp_all

lemma begins_committed_trace [simp]: "filter is_SqlBegin (committed_trace c t k ls body) = []"
  by (induction ls arbitrary: k) auto

lemma two_level_rollback:
  assumes ok: "\<forall>n. driver E n = None"
    and m: "Master c = Inr m"
    and fresh: "Value (case ctx of None \<Rightarrow> GetCtx c | Some cx \<Rightarrow> cx)
                  (transactionKeyForContext (GetGroup c)) = NilValue"
    and dbfresh: "Value (GetCtx c) (transactionKeyForContext (GetGroup c)) = NilValue"
    and t: "t = length (calls w)"
    and run: "Core_Transaction E c ctx (nested E c [([], [])] body (Returns (Some e0))) w = (r, w')"
  shows "r = Returns (Some e0) \<and>
     calls w' = calls w @
       [SqlBegin m, SqlExec t (''SAVEPOINT '' @ QuoteWord c ''transaction0'')] @
       map (SqlExec t) body @
       [SqlExec t (''ROLLBACK TO SAVEPOINT '' @ QuoteWord c ''transaction0''), SqlRollback t]"
proof -
  let ?ls = "[([], [])] :: (string list \<times> string list) list"
  define p where "p = t + 1 + length (descend_trace c t 0 ?ls body)"
  have depth: "int (length ?ls) < 2 ^ 63" by simp
  have ok': "\<forall>n. t \<le> n \<and> n < p \<longrightarrow> driver E n = None" using ok by simp
  from Core_Transaction_nested_rollback [OF m fresh dbfresh depth t p_def ok', where ?e0.0 = e0] run
  have c: "calls w' = calls w @ [SqlBegin m] @ descend_trace c t 0 ?ls body @
        unwind_trace c t 0 ?ls @ [SqlRollback t]"
    and r: "r = Returns (Some (superseded E e0 [p ..< p + length ?ls + 1]))"
    by auto
  have "superseded E e0 [p ..< p + length ?ls + 1] = e0"
    by (rule superseded_none) (simp add: ok)
  with r c show ?thesis
    by (simp add: SAVEPOINT_def ROLLBACK_TO_SAVEPOINT_def savepoint_name_def gconv_String_small)
qed

subsection \<open>Sequences of operations on one handle\<close>

lemma finalizations_of_snoc [simp]:
  "finalizations_of t (cs @ [x]) =
     finalizations_of t cs + (if x = SqlCommit t \<or> x = SqlRollback t then 1 else 0)"
  by (simp add: finalizations_of_def)

lemma physical_finalizations_snoc [simp]:
  "physical_finalizations (cs @ [x]) =
     physical_finalizations cs + (if is_finalization x then 1 else 0)"
  by (simp add: physical_finalizations_def)

lemma apply_op_step:
  assumes a: "a < length (handles w)"
    and k: "TX_transactionCount (handles w ! a) = k" "0 \<le> k" "k + 1 < 2 ^ 63"
    and t: "TX_tx (handles w ! a) = t"
    and c: "finalizations_of t (calls w) = (if sqlTx_done w t then 1 else 0)"
    and w': "w' = apply_op E a x w"
  shows "length (handles w') = length (handles w) \<and>
     TX_tx (handles w' ! a) = t \<and>
     0 \<le> TX_transactionCount (handles w' ! a) \<and>
     TX_transactionCount (handles w' ! a) \<le> k + 1 \<and>
     finalizations_of t (calls w') = (if sqlTx_done w' t then 1 else 0) \<and>
     sqlTx_done w' t = (sqlTx_done w t \<or> (x \<noteq> OpBegin \<and> k = 0)) \<and>
     physical_finalizations (calls w') =
       physical_finalizations (calls w) +
       (if x \<noteq> OpBegin \<and> k = 0 \<and> \<not> sqlTx_done w t then 1 else 0)"
proof -
  have i1: "int64 (k + 1) = k + 1" using k by (intro int64_id) simp_all
  have i2: "int64 (k - 1) = k - 1" if "0 < k" using k that by (intro int64_id) simp_all
  show ?thesis
  proof (cases x)
    case OpBegin
    then show ?thesis
      using a k i1 t c
      by (cases "driver E (length (calls w))")
         (simp_all add: w' TX_Begin_def TX_Exec_def set_count_def)
  next
    case OpCommit
    then show ?thesis
      using a k i2 t c
      by (simp add: w' TX_Commit_def sql_Tx_Commit_def TX_Exec_def set_count_def Let_def)
  next
    case OpRollback
    then show ?thesis
      using a k i2 t c
      by (simp add: w' TX_Rollback_def sql_Tx_Rollback_def TX_Exec_def set_count_def Let_def)
  qed
qed

lemma run_ops_invariant:
  "a < length (handles w) \<Longrightarrow> 0 \<le> TX_transactionCount (handles w ! a) \<Longrightarrow>
   TX_transactionCount (handles w ! a) + int (length ops) < 2 ^ 63 \<Longrightarrow>
   TX_tx (handles w ! a) = t \<Longrightarrow>
   finalizations_of t (calls w) = (if sqlTx_done w t then 1 else 0) \<Longrightarrow>
   0 \<le> TX_transactionCount (handles (run_ops E a ops w) ! a) \<and>
   finalizations_of t (calls (run_ops E a ops w)) =
     (if sqlTx_done (run_ops E a ops w) t then 1 else 0) \<and>
   physical_finalizations (calls (run_ops E a ops w)) =
     physical_finalizations (calls w) +
     (if sqlTx_done w t \<or> finalizers_at_zero E a ops w = 0 then 0 else 1)"
proof (induction ops arbitrary: w)
  case Nil
  then show ?case by simp
next
  case (Cons x xs)
  let ?k = "TX_transactionCount (handles w ! a)"
  let ?w = "apply_op E a x w"
  from Cons.prems have k1: "?k + 1 < 2 ^ 63" by simp
  note st = apply_op_step [OF Cons.prems(1) refl Cons.prems(2) k1 Cons.prems(4,5) refl, of E x]
  from st Cons.prems have p: "a < length (handles ?w)" "0 \<le> TX_transactionCount (handles ?w ! a)"
    "TX_transactionCount (handles ?w ! a) + int (length xs) < 2 ^ 63"
    "TX_tx (handles ?w ! a) = t"
    "finalizations_of t (calls ?w) = (if sqlTx_done ?w t then 1 else 0)"
    by simp_all
  note IH = Cons.IH [OF p]
  show ?case
  proof (cases "x \<noteq> OpBegin \<and> ?k = 0")
    case True
    with st have "sqlTx_done ?w t" by simp
    with IH st True show ?thesis by simp
  next
    case False
    with st have "sqlTx_done ?w t = sqlTx_done w t" by simp
    with IH st False show ?thesis by auto
  qed
qed

subsection \<open>Binding\<close>

lemma TX_db_set_ctx [simp]: "TX_db (handles (set_ctx b c w) ! a) = TX_db (handles w ! a)"
  by (cases "b < length (handles w)"; cases "a = b")
     (simp_all add: set_ctx_def list_update_beyond)

lemma TXFromCtx_world_irrelevant:
  "fst (TXFromCtx ctx g w) = fst (TXFromCtx ctx g w')"
  by (auto simp: TXFromCtx_def split: option.splits ctx_value.splits)

lemma TXFromCtx_Returns_Some:
  "TXFromCtx ctx g w = (Returns (Some b), w') \<Longrightarrow>
   \<exists>c. ctx = Some c \<and> Value c (transactionKeyForContext g) = TXPointer (Some b) \<and>
       w' = set_ctx b (Some c) w"
  by (auto simp: TXFromCtx_def split: option.splits ctx_value.splits)

lemma TXFromCtx_Returns_None:
  "TXFromCtx ctx g w = (Returns None, w') \<Longrightarrow> w' = w"
  by (auto simp: TXFromCtx_def split: option.splits ctx_value.splits)

lemma WithTX_result_bound:
  assumes "WithTX ctx (Some a) w = (Returns c1, w1)"
  shows "\<exists>cc b. c1 = Some cc \<and>
     Value cc (transactionKeyForContext (GetGroup (TX_db (handles w ! a)))) = TXPointer (Some b) \<and>
     GetGroup (TX_db (handles w1 ! b)) = GetGroup (TX_db (handles w ! a)) \<and>
     GetGroup (TX_db (handles w1 ! a)) = GetGroup (TX_db (handles w ! a))"
  using assms
  apply (simp add: WithTX_def Let_def split: prod.splits outcome.splits if_splits option.splits)
  apply (auto dest!: TXFromCtx_Returns_Some TXFromCtx_Returns_None simp: Value_WithValue)
  done

subsection \<open>What finalization touches\<close>

lemma TX_Rollback_footprint:
  "\<exists>x n. calls (snd (TX_Rollback E a u)) = calls u @ [x] \<and> \<not> is_SqlBegin x \<and>
     handles (snd (TX_Rollback E a u)) = (handles u)[a := (handles u ! a)\<lparr>TX_transactionCount := n\<rparr>] \<and>
     transactionIdGenerator (snd (TX_Rollback E a u)) = transactionIdGenerator u"
proof (cases "0 < TX_transactionCount (handles u ! a)")
  case True
  then show ?thesis by (auto simp: TX_Rollback_def TX_Exec_def set_count_def Let_def)
next
  case False
  then show ?thesis
    apply (rule_tac x = "if sqlTx_done u (TX_tx (handles u ! a))
        then Refused (SqlRollback (TX_tx (handles u ! a)))
        else SqlRollback (TX_tx (handles u ! a))" in exI)
    apply (rule_tac x = "TX_transactionCount (handles u ! a)" in exI)
    apply (simp add: TX_Rollback_def sql_Tx_Rollback_def)
    done
qed

lemma TX_Commit_footprint:
  "\<exists>x n. calls (snd (TX_Commit E a u)) = calls u @ [x] \<and> \<not> is_SqlBegin x \<and>
     handles (snd (TX_Commit E a u)) = (handles u)[a := (handles u ! a)\<lparr>TX_transactionCount := n\<rparr>] \<and>
     transactionIdGenerator (snd (TX_Commit E a u)) = transactionIdGenerator u"
proof (cases "0 < TX_transactionCount (handles u ! a)")
  case True
  then show ?thesis by (auto simp: TX_Commit_def TX_Exec_def set_count_def Let_def)
next
  case False
  then show ?thesis
    apply (rule_tac x = "if sqlTx_done u (TX_tx (handles u ! a))
        then Refused (SqlCommit (TX_tx (handles u ! a)))
        else SqlCommit (TX_tx (handles u ! a))" in exI)
    apply (rule_tac x = "TX_transactionCount (handles u ! a)" in exI)
    apply (simp add: TX_Commit_def sql_Tx_Commit_def)
    done
qed

lemma Transaction_deferred_finalizes:
  "snd (Transaction_deferred E a (out, u)) = snd (TX_Rollback E a u) \<or>
   snd (Transaction_deferred E a (out, u)) = snd (TX_Commit E a u)"
  by (auto simp: Transaction_deferred_def Let_def split: outcome.splits option.splits prod.splits)

lemma Transaction_deferred_footprint:
  "\<exists>x n. calls (snd (Transaction_deferred E a (out, u))) = calls u @ [x] \<and> \<not> is_SqlBegin x \<and>
     handles (snd (Transaction_deferred E a (out, u))) =
       (handles u)[a := (handles u ! a)\<lparr>TX_transactionCount := n\<rparr>] \<and>
     transactionIdGenerator (snd (Transaction_deferred E a (out, u))) = transactionIdGenerator u"
  using Transaction_deferred_finalizes [of E a out u] TX_Rollback_footprint [of E a u]
    TX_Commit_footprint [of E a u]
  by auto

lemma Core_Transaction_delegates:
  assumes cx: "Value cx (transactionKeyForContext (GetGroup c)) = TXPointer (Some a)"
    and a: "a < length (handles w)"
    and g: "GetGroup (TX_db (handles w ! a)) = GetGroup c"
  shows "Core_Transaction E c (Some cx) f w = TX_Transaction E a (Some cx) f (set_ctx a (Some cx) w)"
    and "TX_Transaction E a (Some cx) f (set_ctx a (Some cx) w) =
       (case TX_Begin E a (at_depth w a cx (TX_transactionCount (handles w ! a)) []) of
          (Some err, w4) \<Rightarrow> (Returns (Some err), w4)
        | (None, w4) \<Rightarrow> Transaction_deferred E a (f (TX_ctx (handles w4 ! a)) a w4))"
proof -
  show "Core_Transaction E c (Some cx) f w = TX_Transaction E a (Some cx) f (set_ctx a (Some cx) w)"
    by (simp add: Core_Transaction_def TXFromCtx_bound [OF cx] Let_def)
  have w: "set_ctx a (Some cx) w = at_depth w a cx (TX_transactionCount (handles w ! a)) []"
    by (simp add: set_ctx_def at_depth_def)
  show "TX_Transaction E a (Some cx) f (set_ctx a (Some cx) w) =
       (case TX_Begin E a (at_depth w a cx (TX_transactionCount (handles w ! a)) []) of
          (Some err, w4) \<Rightarrow> (Returns (Some err), w4)
        | (None, w4) \<Rightarrow> Transaction_deferred E a (f (TX_ctx (handles w4 ! a)) a w4))"
    unfolding w using a g cx
    by (simp add: TX_Transaction_def TXFromCtx_bound Let_def)
qed

section \<open>Properties of the transaction manager\<close>

text \<open>
  C1: a nest of \<open>N = length ls + 1\<close> calls of \<open>Transaction\<close> on one database
  object, each inner call made on the context its caller received, entered from a context
  that carries no handle for the group. When every driver call succeeds and the innermost
  function returns nil, the outermost call returns nil and the driver sees, after the
  \<open>BEGIN\<close>, the bracketed trace of \<open>committed_trace\<close> and then one \<open>COMMIT\<close>:
  one physical \<open>BEGIN\<close> and one physical \<open>COMMIT\<close> in all. When none of the
  functions' own statements is itself a save-point statement, the log holds \<open>N - 1\<close>
  \<open>SAVEPOINT\<close> statements, named after the depths \<open>0, ..., N - 2\<close>, and \<open>N - 1\<close>
  \<open>RELEASE SAVEPOINT\<close> statements naming the same save points in the reverse order.
\<close>

theorem C1_nested_success_single_commit:
  assumes ok: "\<forall>n. driver E n = None"
    and m: "Master c = Inr m"
    and fresh: "Value (case ctx of None \<Rightarrow> GetCtx c | Some cx \<Rightarrow> cx)
                  (transactionKeyForContext (GetGroup c)) = NilValue"
    and dbfresh: "Value (GetCtx c) (transactionKeyForContext (GetGroup c)) = NilValue"
    and depth: "int (length ls) < 2 ^ 63"
    and run: "Core_Transaction E c ctx (nested E c ls body (Returns None)) w = (r, w')"
    and new: "new = drop (length (calls w)) (calls w')"
  shows "r = Returns None \<and>
     calls w' = calls w @ [SqlBegin m] @ committed_trace c (length (calls w)) 0 ls body @
        [SqlCommit (length (calls w))] \<and>
     length (filter is_SqlBegin new) = 1 \<and>
     length (filter is_SqlCommit new) = 1 \<and>
     ((\<forall>s\<in>set (user_statements ls body). plain_statement s) \<longrightarrow>
        names_of ''SAVEPOINT '' new = map (\<lambda>i. savepoint_name c (int i)) [0..<length ls] \<and>
        length (names_of ''RELEASE SAVEPOINT '' new) = length ls \<and>
        names_of ''RELEASE SAVEPOINT '' new = rev (names_of ''SAVEPOINT '' new))"
proof -
  from Core_Transaction_nested_commit [OF ok m fresh dbfresh depth, of body w] run
  have r: "r = Returns None"
    and c: "calls w' = calls w @ [SqlBegin m] @ committed_trace c (length (calls w)) 0 ls body @
        [SqlCommit (length (calls w))]"
    by auto
  have n: "new = [SqlBegin m] @ committed_trace c (length (calls w)) 0 ls body @
        [SqlCommit (length (calls w))]"
    by (simp add: new c)
  have names: "names_of ''SAVEPOINT '' new = map (\<lambda>i. savepoint_name c (int i)) [0..<length ls] \<and>
        names_of ''RELEASE SAVEPOINT '' new = rev (names_of ''SAVEPOINT '' new)"
    if "\<forall>s\<in>set (user_statements ls body). plain_statement s"
    using names_of_committed_trace [OF that, of c "length (calls w)" 0] by (simp add: n)
  show ?thesis
    using r c names by (simp add: n)
qed

theorem C1_nested_success_single_commit_witness:
  "(\<forall>n. driver env_ok n = None) \<and> Master db0 = Inr 0 \<and>
   Value (GetCtx db0) (transactionKeyForContext (GetGroup db0)) = NilValue \<and>
   int (length [([''INSERT INTO a VALUES (1)''], [''INSERT INTO z VALUES (1)'']), ([], [])]) < 2 ^ 63 \<and>
   fst (Core_Transaction env_ok db0 None
          (nested env_ok db0 [([''INSERT INTO a VALUES (1)''], [''INSERT INTO z VALUES (1)'']), ([], [])]
             [''UPDATE t SET x=1''] (Returns None)) world0) = Returns None \<and>
   calls (snd (Core_Transaction env_ok db0 None
          (nested env_ok db0 [([''INSERT INTO a VALUES (1)''], [''INSERT INTO z VALUES (1)'']), ([], [])]
             [''UPDATE t SET x=1''] (Returns None)) world0)) =
     [SqlBegin 0, SqlExec 0 ''INSERT INTO a VALUES (1)'',
      SqlExec 0 ''SAVEPOINT transaction0'', SqlExec 0 ''SAVEPOINT transaction1'',
      SqlExec 0 ''UPDATE t SET x=1'',
      SqlExec 0 ''RELEASE SAVEPOINT transaction1'', SqlExec 0 ''RELEASE SAVEPOINT transaction0'',
      SqlExec 0 ''INSERT INTO z VALUES (1)'', SqlCommit 0]"
proof -
  let ?ls = "[([''INSERT INTO a VALUES (1)''], [''INSERT INTO z VALUES (1)'']), ([], [])]"
  let ?run = "Core_Transaction env_ok db0 None
          (nested env_ok db0 ?ls [''UPDATE t SET x=1''] (Returns None)) world0"
  have ok: "\<forall>n. driver env_ok n = None" by (simp add: env_ok_def)
  have m: "Master db0 = Inr 0" by (simp add: db0_def)
  have fresh: "Value (case None of None \<Rightarrow> GetCtx db0 | Some cx \<Rightarrow> cx)
      (transactionKeyForContext (GetGroup db0)) = NilValue"
    by (simp add: db0_def Value_def)
  have dbfresh: "Value (GetCtx db0) (transactionKeyForContext (GetGroup db0)) = NilValue"
    by (simp add: db0_def Value_def)
  have depth: "int (length ?ls) < 2 ^ 63" by simp
  have run: "?run = (fst ?run, snd ?run)" by simp
  from C1_nested_success_single_commit [OF ok m fresh dbfresh depth run refl]
  show ?thesis
    using ok m dbfresh
    by (simp add: world0_def SAVEPOINT_def RELEASE_SAVEPOINT_def savepoint_name_db0)
qed



text \<open>
  C3, as amended: an outer \<open>Transaction\<close> whose function calls an inner
  \<open>Transaction\<close> on the same group, the inner function running the statements
  \<open>body\<close> and returning the error \<open>e0\<close>, every driver call succeeding. The driver
  sees \<open>BEGIN\<close>, \<open>SAVEPOINT\<close> of the quoted name \<open>transaction0\<close>, the inner
  statements, \<open>ROLLBACK TO SAVEPOINT\<close> of the same name and \<open>ROLLBACK\<close>, and the
  outer call returns \<open>e0\<close>. The first save point is named after the counter before it
  is incremented, which is 0.
\<close>

theorem C3_inner_error_two_levels:
  assumes ok: "\<forall>n. driver E n = None"
    and m: "Master c = Inr m"
    and fresh: "Value (case ctx of None \<Rightarrow> GetCtx c | Some cx \<Rightarrow> cx)
                  (transactionKeyForContext (GetGroup c)) = NilValue"
    and dbfresh: "Value (GetCtx c) (transactionKeyForContext (GetGroup c)) = NilValue"
    and t: "t = length (calls w)"
    and run: "Core_Transaction E c ctx (nested E c [([], [])] body (Returns (Some e0))) w = (r, w')"
  shows "r = Returns (Some e0) \<and>
     calls w' = calls w @
       [SqlBegin m, SqlExec t (''SAVEPOINT '' @ QuoteWord c ''transaction0'')] @
       map (SqlExec t) body @
       [SqlExec t (''ROLLBACK TO SAVEPOINT '' @ QuoteWord c ''transaction0''), SqlRollback t]"
  using assms by (rule two_level_rollback)

theorem C3_inner_error_two_levels_witness:
  "(\<forall>n. driver env_ok n = None) \<and> Master db0 = Inr 0 \<and>
   Value (GetCtx db0) (transactionKeyForContext (GetGroup db0)) = NilValue \<and>
   fst (Core_Transaction env_ok db0 None
          (nested env_ok db0 [([], [])] [''UPDATE t SET x=1'']
             (Returns (Some (Error ''out of stock'')))) world0) =
     Returns (Some (Error ''out of stock'')) \<and>
   calls (snd (Core_Transaction env_ok db0 None
          (nested env_ok db0 [([], [])] [''UPDATE t SET x=1'']
             (Returns (Some (Error ''out of stock'')))) world0)) =
     [SqlBegin 0, SqlExec 0 ''SAVEPOINT transaction0'', SqlExec 0 ''UPDATE t SET x=1'',
      SqlExec 0 ''ROLLBACK TO SAVEPOINT transaction0'', SqlRollback 0]"
proof -
  let ?run = "Core_Transaction env_ok db0 None
          (nested env_ok db0 [([], [])] [''UPDATE t SET x=1'']
             (Returns (Some (Error ''out of stock'')))) world0"
  have ok: "\<forall>n. driver env_ok n = None" by (simp add: env_ok_def)
  have m: "Master db0 = Inr 0" by (simp add: db0_def)
  have fresh: "Value (case None of None \<Rightarrow> GetCtx db0 | Some cx \<Rightarrow> cx)
      (transactionKeyForContext (GetGroup db0)) = NilValue"
    by (simp add: db0_def Value_def)
  have dbfresh: "Value (GetCtx db0) (transactionKeyForContext (GetGroup db0)) = NilValue"
    by (simp add: db0_def Value_def)
  have t: "0 = length (calls world0)" by (simp add: world0_def)
  have run: "?run = (fst ?run, snd ?run)" by simp
  from C3_inner_error_two_levels [OF ok m fresh dbfresh t run]
  show ?thesis
    using ok m dbfresh by (simp add: world0_def) (simp add: db0_def)
qed

text \<open>
  C3 as stated names the save point \<open>transaction1\<close>. With a quoting that leaves the
  word as it is, the statements are those of \<open>transaction0\<close>.
\<close>

theorem C3_savepoint_transaction1_counterexample:
  "map sqlStr (calls (snd (Core_Transaction env_ok db0 None
          (nested env_ok db0 [([], [])] [''UPDATE t SET x=1'']
             (Returns (Some (Error ''out of stock'')))) world0))) =
     [''BEGIN'', ''SAVEPOINT transaction0'', ''UPDATE t SET x=1'',
      ''ROLLBACK TO SAVEPOINT transaction0'', ''ROLLBACK''] \<and>
   map sqlStr (calls (snd (Core_Transaction env_ok db0 None
          (nested env_ok db0 [([], [])] [''UPDATE t SET x=1'']
             (Returns (Some (Error ''out of stock'')))) world0))) \<noteq>
     [''BEGIN'', ''SAVEPOINT transaction1'', ''UPDATE t SET x=1'',
      ''ROLLBACK TO SAVEPOINT transaction1'', ''ROLLBACK'']"
proof -
  let ?run = "Core_Transaction env_ok db0 None
          (nested env_ok db0 [([], [])] [''UPDATE t SET x=1'']
             (Returns (Some (Error ''out of stock'')))) world0"
  have ok: "\<forall>n. driver env_ok n = None" by (simp add: env_ok_def)
  have m: "Master db0 = Inr 0" by (simp add: db0_def)
  have fresh: "Value (case None of None \<Rightarrow> GetCtx db0 | Some cx \<Rightarrow> cx)
      (transactionKeyForContext (GetGroup db0)) = NilValue"
    by (simp add: db0_def Value_def)
  have dbfresh: "Value (GetCtx db0) (transactionKeyForContext (GetGroup db0)) = NilValue"
    by (simp add: db0_def Value_def)
  have t: "0 = length (calls world0)" by (simp add: world0_def)
  have run: "?run = (fst ?run, snd ?run)" by simp
  from two_level_rollback [OF ok m fresh dbfresh t run]
  have "calls (snd ?run) =
     [SqlBegin 0, SqlExec 0 ''SAVEPOINT transaction0'', SqlExec 0 ''UPDATE t SET x=1'',
      SqlExec 0 ''ROLLBACK TO SAVEPOINT transaction0'', SqlRollback 0]"
    by (simp add: world0_def) (simp add: db0_def)
  then show ?thesis by simp
qed

text \<open>
  C4: \<open>Core.Transaction\<close> on a context that carries handle \<open>a\<close> for the group of
  the database object (the handle being of that group) hands the call to
  \<open>a.Transaction\<close>. No handle is opened: the one driver call made before \<open>f\<close> runs is
  the \<open>SAVEPOINT\<close> \<open>sp\<close> on the handle's own raw transaction. When it fails the
  call returns its error; otherwise \<open>f\<close> runs once, in the world \<open>w\<close> changed only in
  that the log has \<open>sp\<close>, the counter of \<open>a\<close> is one higher, and \<open>a\<close> points at
  the context of the call (the re-pointing of C9). The deferred closure that follows, from
  whatever \<open>f\<close> returns and leaves, adds one more call to the log, which is not a
  \<open>BEGIN\<close>, allocates no handle, leaves the generator alone, and changes no field of any
  handle but the counter of \<open>a\<close>.
\<close>

theorem C4_bound_context_reuses_handle:
  assumes cx: "Value cx (transactionKeyForContext (GetGroup c)) = TXPointer (Some a)"
    and a: "a < length (handles w)"
    and g: "GetGroup (TX_db (handles w ! a)) = GetGroup c"
    and k: "k = TX_transactionCount (handles w ! a)"
    and sp: "sp = SqlExec (TX_tx (handles w ! a))
                   (''SAVEPOINT '' @ QuoteWord (TX_db (handles w ! a)) (''transaction'' @ gconv_String k))"
  shows "Core_Transaction E c (Some cx) f w = TX_Transaction E a (Some cx) f (set_ctx a (Some cx) w) \<and>
     Core_Transaction E c (Some cx) f w =
       (case driver E (length (calls w)) of
          Some err \<Rightarrow> (Returns (Some err), at_depth w a cx k [sp])
        | None \<Rightarrow> Transaction_deferred E a (f (Some cx) a (at_depth w a cx (int64 (k + 1)) [sp]))) \<and>
     (\<forall>out u. \<exists>x n.
        calls (snd (Transaction_deferred E a (out, u))) = calls u @ [x] \<and> \<not> is_SqlBegin x \<and>
        handles (snd (Transaction_deferred E a (out, u))) =
          (handles u)[a := (handles u ! a)\<lparr>TX_transactionCount := n\<rparr>] \<and>
        transactionIdGenerator (snd (Transaction_deferred E a (out, u))) = transactionIdGenerator u)"
proof -
  note d = Core_Transaction_delegates [OF cx a g, of E f]
  have sp': "sp = SqlExec (TX_tx (handles w ! a)) (SAVEPOINT (TX_db (handles w ! a)) k)"
    by (simp add: sp SAVEPOINT_def savepoint_name_def)
  have "Core_Transaction E c (Some cx) f w =
       (case driver E (length (calls w)) of
          Some err \<Rightarrow> (Returns (Some err), at_depth w a cx k [sp])
        | None \<Rightarrow> Transaction_deferred E a (f (Some cx) a (at_depth w a cx (int64 (k + 1)) [sp])))"
    using a by (simp add: d TX_Begin_at_depth k [symmetric] sp' split: option.splits)
  with d(1) Transaction_deferred_footprint show ?thesis by blast
qed

theorem C4_bound_context_reuses_handle_witness:
  "Value ctx1 (transactionKeyForContext (GetGroup db0)) = TXPointer (Some 0) \<and>
   0 < length (handles world1) \<and>
   GetGroup (TX_db (handles world1 ! 0)) = GetGroup db0 \<and>
   TX_transactionCount (handles world1 ! 0) = 1 \<and>
   fst (Core_Transaction env_ok db0 (Some ctx1)
          (nested env_ok db0 [] [''UPDATE t SET x=1''] (Returns None)) world1) = Returns None \<and>
   calls (snd (Core_Transaction env_ok db0 (Some ctx1)
          (nested env_ok db0 [] [''UPDATE t SET x=1''] (Returns None)) world1)) =
     [SqlBegin 0, SqlExec 0 ''SAVEPOINT transaction0'', SqlExec 0 ''SAVEPOINT transaction1'',
      SqlExec 0 ''UPDATE t SET x=1'', SqlExec 0 ''RELEASE SAVEPOINT transaction1''] \<and>
   length (handles (snd (Core_Transaction env_ok db0 (Some ctx1)
          (nested env_ok db0 [] [''UPDATE t SET x=1''] (Returns None)) world1))) = 1 \<and>
   TX_transactionCount (handles (snd (Core_Transaction env_ok db0 (Some ctx1)
          (nested env_ok db0 [] [''UPDATE t SET x=1''] (Returns None)) world1)) ! 0) = 1"
proof -
  have cx: "Value ctx1 (transactionKeyForContext (GetGroup db0)) = TXPointer (Some 0)"
    by (simp add: Value_def ctx1_def db0_def transactionKeyForContext_def
        contextTransactionKeyPrefix_def)
  have a: "0 < length (handles world1)" by (simp add: world1_def)
  have g: "GetGroup (TX_db (handles world1 ! 0)) = GetGroup db0" by (simp add: world1_def)
  have k: "TX_transactionCount (handles world1 ! 0) = 1" by (simp add: world1_def)
  have i: "int64 2 = 2" "int64 1 = 1" by (simp_all add: int64_def)
  have q: "QuoteWord (TX_db (handles world1 ! 0)) = (\<lambda>s. s)" "TX_tx (handles world1 ! 0) = 0"
    "TX_db (handles world1 ! 0) = db0" "QuoteWord db0 = (\<lambda>s. s)"
    by (simp_all add: world1_def db0_def)
  have d: "driver env_ok n = None" for n by (simp add: env_ok_def)
  note eq = C4_bound_context_reuses_handle [OF cx a g refl refl, of env_ok
      "nested env_ok db0 [] [''UPDATE t SET x=1''] (Returns None)", THEN conjunct2, THEN conjunct1]
  have "Core_Transaction env_ok db0 (Some ctx1)
          (nested env_ok db0 [] [''UPDATE t SET x=1''] (Returns None)) world1 =
      (Returns None, at_depth world1 0 ctx1 1
         [SqlExec 0 ''SAVEPOINT transaction1'', SqlExec 0 ''UPDATE t SET x=1'',
          SqlExec 0 ''RELEASE SAVEPOINT transaction1''])"
    unfolding eq using a
    by (simp add: k d i q gconv_String_small Transaction_deferred_def TX_Commit_at_depth
        RELEASE_SAVEPOINT_def savepoint_name_def)
  then show ?thesis
    using cx a g k by (simp add: world1_def)
qed

text \<open>
  C5: take a handle whose counter is not negative, and whose raw transaction \<open>t\<close> has
  reached the driver with a \<open>COMMIT\<close> or \<open>ROLLBACK\<close> once if it is finished and never
  if it is not. Take any sequence of \<open>Begin\<close>, \<open>Commit\<close> and \<open>Rollback\<close> on the
  handle, shorter than it takes to overflow the counter, whatever the driver answers. After
  every prefix of the sequence the counter is not negative. At the end \<open>t\<close> has been
  committed or rolled back at the driver at most once. The run adds a physical
  \<open>COMMIT\<close> or \<open>ROLLBACK\<close> to the log only if one of its \<open>Commit\<close> or
  \<open>Rollback\<close> operations finds the counter at 0, and then, \<open>t\<close> not being finished
  before, exactly one.
\<close>

theorem C5_counter_never_negative_finalized_once:
  assumes "a < length (handles w)"
    and "0 \<le> TX_transactionCount (handles w ! a)"
    and "TX_transactionCount (handles w ! a) + int (length ops) < 2 ^ 63"
    and "TX_tx (handles w ! a) = t"
    and "finalizations_of t (calls w) = (if sqlTx_done w t then 1 else 0)"
  shows "(\<forall>n. 0 \<le> TX_transactionCount (handles (run_ops E a (take n ops) w) ! a)) \<and>
     finalizations_of t (calls (run_ops E a ops w)) \<le> 1 \<and>
     physical_finalizations (calls (run_ops E a ops w)) =
       physical_finalizations (calls w) +
       (if sqlTx_done w t \<or> finalizers_at_zero E a ops w = 0 then 0 else 1)"
proof -
  have "0 \<le> TX_transactionCount (handles (run_ops E a (take n ops) w) ! a)" for n
  proof -
    have "TX_transactionCount (handles w ! a) + int (length (take n ops)) < 2 ^ 63"
      using assms(3) by simp
    from run_ops_invariant [OF assms(1,2) this assms(4,5)] show ?thesis by simp
  qed
  with run_ops_invariant [OF assms] show ?thesis by simp
qed

theorem C5_counter_never_negative_finalized_once_witness:
  "0 < length (handles world1) \<and> TX_transactionCount (handles world1 ! 0) = 1 \<and>
   TX_tx (handles world1 ! 0) = 0 \<and> \<not> sqlTx_done world1 0 \<and>
   finalizations_of 0 (calls world1) = 0 \<and>
   map (\<lambda>n. TX_transactionCount
         (handles (run_ops env_ok 0 (take n [OpBegin, OpRollback, OpCommit, OpCommit, OpRollback]) world1) ! 0))
     [0, 1, 2, 3, 4, 5] = [1, 2, 1, 0, 0, 0] \<and>
   calls (run_ops env_ok 0 [OpBegin, OpRollback, OpCommit, OpCommit, OpRollback] world1) =
     [SqlBegin 0, SqlExec 0 ''SAVEPOINT transaction0'', SqlExec 0 ''SAVEPOINT transaction1'',
      SqlExec 0 ''ROLLBACK TO SAVEPOINT transaction1'', SqlExec 0 ''RELEASE SAVEPOINT transaction0'',
      SqlCommit 0, Refused (SqlRollback 0)] \<and>
   finalizers_at_zero env_ok 0 [OpBegin, OpRollback, OpCommit, OpCommit, OpRollback] world1 = 2 \<and>
   finalizations_of 0 (calls (run_ops env_ok 0 [OpBegin, OpRollback, OpCommit, OpCommit, OpRollback] world1)) = 1 \<and>
   physical_finalizations
     (calls (run_ops env_ok 0 [OpBegin, OpRollback, OpCommit, OpCommit, OpRollback] world1)) = 1"
proof -
  let ?ops = "[OpBegin, OpRollback, OpCommit, OpCommit, OpRollback]"
  note defs = world1_def db0_def TX_Begin_def TX_Commit_def TX_Rollback_def TX_Exec_def set_count_def
    sql_Tx_Commit_def sql_Tx_Rollback_def env_ok_def int64_def Let_def
    transactionKeyForNestedPoint_def transactionPointerPrefix_def gconv_String_small
  have a: "0 < length (handles world1)" by (simp add: world1_def)
  have k: "0 \<le> TX_transactionCount (handles world1 ! 0)" by (simp add: world1_def)
  have b: "TX_transactionCount (handles world1 ! 0) + int (length ?ops) < 2 ^ 63"
    by (simp add: world1_def)
  have t: "TX_tx (handles world1 ! 0) = 0" by (simp add: world1_def)
  have c: "finalizations_of 0 (calls world1) = (if sqlTx_done world1 0 then 1 else 0)"
    by (simp add: world1_def finalizations_of_def)
  have ev: "map (\<lambda>n. TX_transactionCount (handles (run_ops env_ok 0 (take n ?ops) world1) ! 0))
     [0, 1, 2, 3, 4, 5] = [1, 2, 1, 0, 0, 0]"
    by (simp add: defs)
  have cs: "calls (run_ops env_ok 0 ?ops world1) =
     [SqlBegin 0, SqlExec 0 ''SAVEPOINT transaction0'', SqlExec 0 ''SAVEPOINT transaction1'',
      SqlExec 0 ''ROLLBACK TO SAVEPOINT transaction1'', SqlExec 0 ''RELEASE SAVEPOINT transaction0'',
      SqlCommit 0, Refused (SqlRollback 0)]"
    by (simp add: defs)
  have fz: "finalizers_at_zero env_ok 0 ?ops world1 = 2"
    by (simp add: defs)
  have z: "\<not> sqlTx_done world1 0" "finalizations_of 0 (calls world1) = 0"
    "physical_finalizations (calls world1) = 0"
    by (simp_all add: world1_def finalizations_of_def physical_finalizations_def)
  note c5 = C5_counter_never_negative_finalized_once [OF a k b t c, of env_ok,
      THEN conjunct2, THEN conjunct2]
  have "physical_finalizations (calls (run_ops env_ok 0 ?ops world1)) = 1"
    using c5 by (simp only: fz z) simp
  moreover have "finalizations_of 0 (calls (run_ops env_ok 0 ?ops world1)) = 1"
    by (simp only: cs) (simp add: finalizations_of_def)
  ultimately show ?thesis using a t z ev cs fz by (simp add: world1_def)
qed

text \<open>
  C6, as amended: on a handle whose counter \<open>k\<close> is greater than 0, \<open>Commit\<close>
  decrements the counter and executes \<open>RELEASE SAVEPOINT\<close> on the name built from the
  counter after the decrement, \<open>k - 1\<close>, which is the name \<open>Begin\<close> gave the save
  point; it returns what the driver answers to that statement.
\<close>

theorem C6_Commit_nested_releases_post_decrement:
  assumes a: "a < length (handles w)"
    and k: "TX_transactionCount (handles w ! a) = k" "0 < k" "k < 2 ^ 63"
  shows "TX_Commit E a w =
     (driver E (length (calls w)),
      w\<lparr>calls := calls w @
           [SqlExec (TX_tx (handles w ! a))
              (''RELEASE SAVEPOINT '' @
               QuoteWord (TX_db (handles w ! a)) (transactionPointerPrefix @ gconv_String (k - 1)))],
        handles := (handles w)[a := (handles w ! a)\<lparr>TX_transactionCount := k - 1\<rparr>]\<rparr>)"
proof -
  have "int64 (k - 1) = k - 1" using k by (intro int64_id) simp_all
  then show ?thesis
    using a k
    by (simp add: TX_Commit_def Let_def set_count_def TX_Exec_def transactionKeyForNestedPoint_def)
qed

theorem C6_Commit_nested_releases_post_decrement_witness:
  "0 < length (handles world1) \<and> TX_transactionCount (handles world1 ! 0) = 1 \<and>
   TX_Commit env_ok 0 world1 =
     (None,
      world1\<lparr>calls := [SqlBegin 0, SqlExec 0 ''SAVEPOINT transaction0'',
                        SqlExec 0 ''RELEASE SAVEPOINT transaction0''],
        handles := [(handles world1 ! 0)\<lparr>TX_transactionCount := 0\<rparr>]\<rparr>)"
proof -
  have a: "0 < length (handles world1)" by (simp add: world1_def)
  have k: "TX_transactionCount (handles world1 ! 0) = 1" "0 < (1::int)" "(1::int) < 2 ^ 63"
    by (simp_all add: world1_def)
  from C6_Commit_nested_releases_post_decrement [OF a k, of env_ok]
  show ?thesis
    using a k(1)
    by (simp add: gconv_String_small transactionPointerPrefix_def)
       (simp add: world1_def db0_def env_ok_def)
qed

text \<open>
  C6 as stated takes the name from the counter before the decrement. At depth 1 the
  statement released is that of \<open>transaction0\<close>, not of \<open>transaction1\<close>.
\<close>

theorem C6_pre_decrement_name_counterexample:
  "TX_transactionCount (handles world1 ! 0) = 1 \<and>
   calls (snd (TX_Commit env_ok 0 world1)) =
     calls world1 @ [SqlExec 0 ''RELEASE SAVEPOINT transaction0''] \<and>
   calls (snd (TX_Commit env_ok 0 world1)) \<noteq>
     calls world1 @
       [SqlExec 0 (''RELEASE SAVEPOINT '' @
          QuoteWord db0 (transactionPointerPrefix @
            gconv_String (TX_transactionCount (handles world1 ! 0))))]"
  by (simp add: TX_Commit_def Let_def set_count_def TX_Exec_def transactionKeyForNestedPoint_def
      world1_def db0_def gconv_String_small transactionPointerPrefix_def int64_def)




text \<open>
  C8: when \<open>WithTX\<close> has returned a context for a non-nil handle, \<open>WithTX\<close> on
  that context with the same handle returns that context unchanged, and a lookup in it finds
  after the second call what it found before, for every group.
\<close>

theorem C8_WithTX_twice:
  assumes "WithTX ctx (Some a) w = (Returns c1, w1)"
  shows "fst (WithTX c1 (Some a) w1) = Returns c1 \<and>
     (\<forall>g. fst (TXFromCtx c1 g (snd (WithTX c1 (Some a) w1))) = fst (TXFromCtx c1 g w1))"
proof -
  from WithTX_result_bound [OF assms] obtain cc b where
    c1: "c1 = Some cc"
    and v: "Value cc (transactionKeyForContext (GetGroup (TX_db (handles w ! a)))) = TXPointer (Some b)"
    and gb: "GetGroup (TX_db (handles w1 ! b)) = GetGroup (TX_db (handles w ! a))"
    and ga: "GetGroup (TX_db (handles w1 ! a)) = GetGroup (TX_db (handles w ! a))"
    by blast
  have "fst (WithTX c1 (Some a) w1) = Returns c1"
    by (simp add: WithTX_def c1 ga TXFromCtx_bound [OF v] gb)
  then show ?thesis
    using TXFromCtx_world_irrelevant by blast
qed

theorem C8_WithTX_twice_witness:
  "WithTX (Some [(''TransactionId'', Uint64Value 1)]) (Some 0) world1 = (Returns (Some ctx1), world1) \<and>
   fst (WithTX (Some ctx1) (Some 0) world1) = Returns (Some ctx1) \<and>
   fst (TXFromCtx (Some ctx1) ''default'' (snd (WithTX (Some ctx1) (Some 0) world1))) =
     Returns (Some 0)"
proof -
  have first: "WithTX (Some [(''TransactionId'', Uint64Value 1)]) (Some 0) world1 =
      (Returns (Some ctx1), world1)"
    by (simp add: WithTX_def TXFromCtx_def Value_def WithValue_def world1_def db0_def ctx1_def
        transactionKeyForContext_def contextTransactionKeyPrefix_def)
  have look: "fst (TXFromCtx (Some ctx1) ''default'' world1) = Returns (Some 0)"
    by (simp add: TXFromCtx_def Value_def ctx1_def transactionKeyForContext_def
        contextTransactionKeyPrefix_def)
  from C8_WithTX_twice [OF first] first look show ?thesis by simp
qed

text \<open>
  C9: \<open>TXFromCtx\<close> on a nil context, and on a context that holds nothing under the
  group's key, returns nil and changes nothing; it does not panic. On a context that holds
  a pointer to handle \<open>a\<close> under the group's key it returns \<open>a\<close>, and the world it
  leaves differs from the one it found only in that the \<open>ctx\<close> field of \<open>a\<close> is the
  lookup context. It returns a handle in no other case.
\<close>

theorem C9_TXFromCtx_absent_and_repoint:
  "TXFromCtx None g w = (Returns None, w) \<and>
   (\<forall>cx. Value cx (transactionKeyForContext g) = NilValue \<longrightarrow>
      TXFromCtx (Some cx) g w = (Returns None, w)) \<and>
   (\<forall>cx a. Value cx (transactionKeyForContext g) = TXPointer (Some a) \<longrightarrow>
      TXFromCtx (Some cx) g w =
        (Returns (Some a), w\<lparr>handles := (handles w)[a := (handles w ! a)\<lparr>TX_ctx := Some cx\<rparr>]\<rparr>) \<and>
      (a < length (handles w) \<longrightarrow>
         TX_ctx (handles (snd (TXFromCtx (Some cx) g w)) ! a) = Some cx)) \<and>
   (\<forall>ctx a w'. TXFromCtx ctx g w = (Returns (Some a), w') \<longrightarrow>
      (\<exists>cx. ctx = Some cx \<and> Value cx (transactionKeyForContext g) = TXPointer (Some a)))"
  by (auto simp: TXFromCtx_def set_ctx_def split: option.splits ctx_value.splits)

theorem C9_TXFromCtx_absent_and_repoint_witness:
  "TXFromCtx None ''default'' world1 = (Returns None, world1) \<and>
   Value [(''TransactionId'', Uint64Value 1)] (transactionKeyForContext ''default'') = NilValue \<and>
   TXFromCtx (Some [(''TransactionId'', Uint64Value 1)]) ''default'' world1 = (Returns None, world1) \<and>
   Value ((''request'', OtherValue ''string'') # ctx1) (transactionKeyForContext ''default'') =
     TXPointer (Some 0) \<and>
   0 < length (handles world1) \<and>
   TX_ctx (handles world1 ! 0) = Some ctx1 \<and>
   TXFromCtx (Some ((''request'', OtherValue ''string'') # ctx1)) ''default'' world1 =
     (Returns (Some 0),
      world1\<lparr>handles := [(handles world1 ! 0)\<lparr>TX_ctx := Some ((''request'', OtherValue ''string'') # ctx1)\<rparr>]\<rparr>) \<and>
   TX_ctx (handles (snd (TXFromCtx (Some ((''request'', OtherValue ''string'') # ctx1))
       ''default'' world1)) ! 0) = Some ((''request'', OtherValue ''string'') # ctx1)"
proof -
  let ?cx = "(''request'', OtherValue ''string'') # ctx1"
  note c9 = C9_TXFromCtx_absent_and_repoint [of "''default''" world1]
  have v: "Value [(''TransactionId'', Uint64Value 1)] (transactionKeyForContext ''default'') = NilValue"
    by (simp add: Value_def transactionKeyForContext_def contextTransactionKeyPrefix_def)
  have b: "Value ?cx (transactionKeyForContext ''default'') = TXPointer (Some 0)"
    by (simp add: Value_def ctx1_def transactionKeyForContext_def contextTransactionKeyPrefix_def)
  have a: "0 < length (handles world1)" by (simp add: world1_def)
  have h: "(handles world1)[0 := (handles world1 ! 0)\<lparr>TX_ctx := Some ?cx\<rparr>] =
      [(handles world1 ! 0)\<lparr>TX_ctx := Some ?cx\<rparr>]"
    by (simp add: world1_def)
  from c9 have "TXFromCtx None ''default'' world1 = (Returns None, world1)" by blast
  moreover from c9 v have "TXFromCtx (Some [(''TransactionId'', Uint64Value 1)]) ''default'' world1 =
      (Returns None, world1)" by blast
  moreover from c9 b have "TXFromCtx (Some ?cx) ''default'' world1 =
      (Returns (Some 0), world1\<lparr>handles := (handles world1)[0 := (handles world1 ! 0)\<lparr>TX_ctx := Some ?cx\<rparr>]\<rparr>)"
    by blast
  moreover from c9 b a have "TX_ctx (handles (snd (TXFromCtx (Some ?cx) ''default'' world1)) ! 0) = Some ?cx"
    by blast
  moreover have "TX_ctx (handles world1 ! 0) = Some ctx1" by (simp add: world1_def)
  ultimately show ?thesis using v b a h by simp
qed

text \<open>
  C10: with a nil handle \<open>WithTX\<close> returns the context it was given and leaves the
  world as it is: no lookup re-points a handle and nothing is injected.
\<close>

theorem C10_WithTX_nil_handle:
  "WithTX ctx None w = (Returns ctx, w)"
  by (simp add: WithTX_def)

end
